theory Spec2Isabelle
  imports Complex_Main
begin

section \<open>macro\_lightning: escape-velocity composition and threshold integration\<close>

text \<open>
  A shallow embedding of \<^verbatim>\<open>src/macro_lightning/physics.py\<close> and of the helpers of
  \<^verbatim>\<open>src/macro_lightning/utils.py\<close> it calls.

  Modelling conventions.
  \<^item> A dimensioned quantity is a real number: its value in the unit it is given in, all
    quantities of one call being given in coherent units. The unit tags (\<^verbatim>\<open>m_unit\<close>,
    \<^verbatim>\<open>sig_unit\<close>, \<^verbatim>\<open>_KMS\<close>), the unit checks of \<^verbatim>\<open>u.quantity_input\<close> and the conversions
    between units, which multiply by positive constants, are left out.
  \<^item> A unit mismatch between the arguments of one call (the condition
    \<^verbatim>\<open>DimensionalMismatch\<close>) is left out with the units.
  \<^item> Floating-point numbers are idealised as reals. The special values of IEEE arithmetic
    (infinity and NaN, which numpy produces on a division by zero) are outside the model.
  \<^item> Where the code tests the truth value of an argument, the model tells a bare Python
    number from an astropy \<^verbatim>\<open>Quantity\<close>: the two differ in truthiness.
  \<^item> An exception is a value of type \<open>py_error\<close>, returned on the left of a sum.
  \<^item> The progress bar \<^verbatim>\<open>tqdm\<close> only observes the loop and is left out.
\<close>

datatype py_error =
    ValueError          \<comment> \<open>\<^verbatim>\<open>ValueError("vels steps unequal in size.")\<close>, or a failed broadcast\<close>
  | IndexError          \<comment> \<open>\<^verbatim>\<open>steps[0]\<close> on an empty array\<close>
  | UnboundLocalError   \<comment> \<open>a local variable read before any assignment\<close>
  | TypeError           \<comment> \<open>\<^verbatim>\<open>None / vrel ** 2\<close>, \<^verbatim>\<open>reduce\<close> of an empty sequence\<close>
  | NotImplementedError \<comment> \<open>raised by \<^verbatim>\<open>as_quantity\<close> when \<^verbatim>\<open>Quantity()\<close> fails\<close>

subsection \<open>Escape-velocity composition\<close>

text \<open>\<^verbatim>\<open>_sqrt2 = np.sqrt(2)\<close>\<close>

definition sqrt2 :: real where
  "sqrt2 = sqrt 2"

text \<open>\<^verbatim>\<open>def _norm_v1_v2(v1, v2): return np.sqrt(v1 ** 2.0 + v2 ** 2.0)\<close>\<close>

definition norm_v1_v2 :: "real \<Rightarrow> real \<Rightarrow> real" where
  "norm_v1_v2 v1 v2 = sqrt (v1\<^sup>2 + v2\<^sup>2)"

text \<open>
  A number as a caller may pass it: a bare Python number, or an astropy \<^verbatim>\<open>Quantity\<close> with
  its value.
\<close>

datatype number = Bare real | Quantity real

fun magnitude :: "number \<Rightarrow> real" where
  "magnitude (Bare v) = v"
| "magnitude (Quantity v) = v"

text \<open>
  \<^verbatim>\<open>x or y\<close> on an optional number: \<open>x\<close> when \<open>x\<close> is true, else \<open>y\<close>. \<^verbatim>\<open>None\<close> is false; a bare
  number is false when it is zero; a \<^verbatim>\<open>Quantity\<close> is true whatever its value
  (\<^verbatim>\<open>Quantity.__bool__\<close> returns \<^verbatim>\<open>True\<close>).
\<close>

definition py_or :: "number option \<Rightarrow> real \<Rightarrow> real" where
  "py_or x y =
     (case x of
        None \<Rightarrow> y
      | Some (Bare v) \<Rightarrow> if v = 0 then y else v
      | Some (Quantity v) \<Rightarrow> v)"

text \<open>
  \<^verbatim>\<open>
  def twobody_vesc(ve1, ve2, vo=None):
      vo = vo or ve2 / _sqrt2  # None -> circular
      return np.sqrt(ve1 ** 2 + (ve2 - vo) ** 2)
  \<close>
\<close>

definition twobody_vesc :: "real \<Rightarrow> real \<Rightarrow> number option \<Rightarrow> real" where
  "twobody_vesc ve1 ve2 vo =
     (let vo' = py_or vo (ve2 / sqrt2)
      in sqrt (ve1\<^sup>2 + (ve2 - vo')\<^sup>2))"

text \<open>
  The formula as the specification words it: the orbital velocity is the one given, and
  \<open>ve2 / sqrt 2\<close> only when it is omitted.
\<close>

definition spec_twobody_vesc :: "real \<Rightarrow> real \<Rightarrow> number option \<Rightarrow> real" where
  "spec_twobody_vesc ve1 ve2 vo =
     sqrt (ve1\<^sup>2 + (ve2 - (case vo of None \<Rightarrow> ve2 / sqrt 2 | Some v \<Rightarrow> magnitude v))\<^sup>2)"

text \<open>
  \<^verbatim>\<open>
  def as_quantity(arg):
      try:
          return Quantity(arg, copy=False, subok=True)
      except Exception:
          raise NotImplementedError
  \<close>
  The argument is a sequence with a length (the tuple \<^verbatim>\<open>vescs\<close>) or a bare iterator (an
  \<^verbatim>\<open>itertools.accumulate\<close> object). \<^verbatim>\<open>Quantity()\<close> builds the array of a sequence; on an
  iterator it calls \<^verbatim>\<open>len()\<close>, which fails, and the \<^verbatim>\<open>except\<close> clause turns the failure
  into \<^verbatim>\<open>NotImplementedError\<close>.
\<close>

datatype 'a iterable = Sequence "'a list" | Iterator "'a list"

definition as_quantity :: "real iterable \<Rightarrow> py_error + real list" where
  "as_quantity arg =
     (case arg of
        Sequence xs \<Rightarrow> Inr xs
      | Iterator xs \<Rightarrow> Inl NotImplementedError)"

text \<open>
  \<^verbatim>\<open>functools.reduce(f, vs)\<close>: the left-to-right reduction seeded with the first element; a
  \<^verbatim>\<open>TypeError\<close> on an empty sequence.
\<close>

definition reduce :: "('a \<Rightarrow> 'a \<Rightarrow> 'a) \<Rightarrow> 'a list \<Rightarrow> py_error + 'a" where
  "reduce f vs = (case vs of [] \<Rightarrow> Inl TypeError | v # vs' \<Rightarrow> Inr (foldl f v vs'))"

text \<open>
  \<^verbatim>\<open>itertools.accumulate(vs, f)\<close>: the iterator over the running reductions, one per
  prefix; here, the elements it would yield.
\<close>

fun accumulate_from :: "('a \<Rightarrow> 'a \<Rightarrow> 'a) \<Rightarrow> 'a \<Rightarrow> 'a list \<Rightarrow> 'a list" where
  "accumulate_from f a [] = [a]"
| "accumulate_from f a (x # xs) = a # accumulate_from f (f a x) xs"

definition accumulate :: "('a \<Rightarrow> 'a \<Rightarrow> 'a) \<Rightarrow> 'a list \<Rightarrow> 'a list" where
  "accumulate f vs = (case vs of [] \<Rightarrow> [] | v # vs' \<Rightarrow> accumulate_from f v vs')"

text \<open>
  \<^verbatim>\<open>vs[1:] - vo\<close> stored back into \<^verbatim>\<open>vs[1:]\<close>: numpy broadcasts a one-element \<open>vo\<close>, subtracts
  elementwise when the lengths agree, and raises \<^verbatim>\<open>ValueError\<close> otherwise.
\<close>

definition sub_broadcast :: "real list \<Rightarrow> real list \<Rightarrow> py_error + real list" where
  "sub_broadcast xs vo =
     (if length vo = length xs then Inr (map (\<lambda>(x, y). x - y) (zip xs vo))
      else if length vo = 1 then Inr (map (\<lambda>x. x - hd vo) xs)
      else Inl ValueError)"

text \<open>The scalar or the accumulated vector that \<^verbatim>\<open>multibody_vesc\<close> returns.\<close>

datatype vesc_result = Total real | Accumulated "real list"

text \<open>
  \<^verbatim>\<open>
  def multibody_vesc(*vescs, vo=None, accumulate=False):
      vs = as_quantity(vescs)
      if vo is None:
          vs[1:] = vs[1:] * (1 - 1 / np.sqrt(2))
      else:
          vs[1:] = vs[1:] - vo
      if accumulate:
          return as_quantity(itertools.accumulate(vs, _norm_v1_v2))
      else:
          return functools.reduce(_norm_v1_v2, vs)
  \<close>
\<close>

definition multibody_vesc :: "real list \<Rightarrow> real list option \<Rightarrow> bool \<Rightarrow> py_error + vesc_result" where
  "multibody_vesc vescs vo acc =
     (case as_quantity (Sequence vescs) of
        Inl e \<Rightarrow> Inl e
      | Inr vs0 \<Rightarrow>
          (case (case vo of
                   None \<Rightarrow> Inr (map (\<lambda>v. v * (1 - 1 / sqrt 2)) (drop 1 vs0))
                 | Some w \<Rightarrow> sub_broadcast (drop 1 vs0) w) of
             Inl e \<Rightarrow> Inl e
           | Inr rest \<Rightarrow>
               (let vs = take 1 vs0 @ rest
                in if acc then
                     (case as_quantity (Iterator (accumulate norm_v1_v2 vs)) of
                        Inl e \<Rightarrow> Inl e
                      | Inr xs \<Rightarrow> Inr (Accumulated xs))
                   else
                     (case reduce norm_v1_v2 vs of
                        Inl e \<Rightarrow> Inl e
                      | Inr v \<Rightarrow> Inr (Total v)))))"

subsection \<open>The velocity grid\<close>

text \<open>
  \<^verbatim>\<open>qnorm(*args)\<close> is \<^verbatim>\<open>numpy.linalg.norm\<close> of the arguments as one vector: the Euclidean
  norm.
\<close>

definition qnorm :: "real list \<Rightarrow> real" where
  "qnorm xs = sqrt (sum_list (map (\<lambda>x. x\<^sup>2) xs))"

text \<open>
  \<^verbatim>\<open>
  def f_BM_bin(vx, vbin, vvir):
      norm = (vbin / vvir) ** 3 / np.power(np.pi, 3.0 / 2.0)
      exp = np.exp(-np.square(vx / vvir))
      return norm * exp
  \<close>
\<close>

definition f_BM_bin :: "real \<Rightarrow> real \<Rightarrow> real \<Rightarrow> real" where
  "f_BM_bin vx vbin vvir =
     (let norm = (vbin / vvir) ^ 3 / (pi powr (3 / 2));
          exp' = exp (- (vx / vvir)\<^sup>2)
      in norm * exp')"

text \<open>\<^verbatim>\<open>np.diff(vels)\<close>: the successive differences \<open>vels[i+1] - vels[i]\<close>.\<close>

fun diff :: "real list \<Rightarrow> real list" where
  "diff (a # b # xs) = (b - a) # diff (b # xs)"
| "diff _ = []"

text \<open>
  \<^verbatim>\<open>np.allclose(a, b)\<close> with its default tolerances, on two arrays of one length:
  \<open>|a - b| \<le> atol + rtol * |b|\<close> at every position, \<open>rtol = 1e-5\<close> and \<open>atol = 1e-8\<close>.
\<close>

definition isclose :: "real \<Rightarrow> real \<Rightarrow> bool" where
  "isclose a b \<longleftrightarrow> \<bar>a - b\<bar> \<le> 1 / 10 ^ 8 + 1 / 10 ^ 5 * \<bar>b\<bar>"

definition allclose :: "real list \<Rightarrow> real list \<Rightarrow> bool" where
  "allclose as bs = list_all (\<lambda>(a, b). isclose a b) (zip as bs)"

text \<open>
  The validation at the head of \<^verbatim>\<open>calculate_Mx\<close>, which returns the bin width:
  \<^verbatim>\<open>
  steps = np.diff(vels)
  if not np.allclose(steps[:-1], steps[1:]):  # check all close
      raise ValueError("vels steps unequal in size.")
  else:
      vstep = np.abs(steps[0])  # positive
  \<close>
  Every difference is compared with the next one. With fewer than two samples there is
  no difference at all: the comparison holds of two empty arrays and \<^verbatim>\<open>steps[0]\<close> raises
  \<^verbatim>\<open>IndexError\<close>.
\<close>

definition check_steps :: "real list \<Rightarrow> py_error + real" where
  "check_steps vels =
     (let steps = diff vels
      in if \<not> allclose (butlast steps) (tl steps) then Inl ValueError
         else (case steps of [] \<Rightarrow> Inl IndexError | s0 # _ \<Rightarrow> Inr \<bar>s0\<bar>))"

text \<open>
  The validation as the specification words it: the smallest and the largest successive
  difference are compared for approximate equality.
\<close>

definition spec_check_steps :: "real list \<Rightarrow> bool" where
  "spec_check_steps vels =
     (let steps = diff vels
      in steps = [] \<or> isclose (Min (set steps)) (Max (set steps)))"

text \<open>
  \<^verbatim>\<open>enumerate(itertools.product(vels, vels, vels))\<close>: the triples with the first component
  varying slowest, each with its flat position.
\<close>

type_synonym triple = "real \<times> real \<times> real"

definition product3 :: "real list \<Rightarrow> triple list" where
  "product3 vels = List.product vels (List.product vels vels)"

definition enumerate_product :: "real list \<Rightarrow> (nat \<times> triple) list" where
  "enumerate_product vels = List.enumerate 0 (product3 vels)"

text \<open>The filter \<^verbatim>\<open>qnorm(vx, vy, vz) <= vesc\<close> and the relative velocity of a triple.\<close>

definition qualifies :: "real \<Rightarrow> triple \<Rightarrow> bool" where
  "qualifies vesc t = (case t of (vx, vy, vz) \<Rightarrow> qnorm [vx, vy, vz] \<le> vesc)"

definition vrel_of :: "real \<Rightarrow> real \<Rightarrow> triple \<Rightarrow> real" where
  "vrel_of vmin vcirc t = (case t of (vx, vy, vz) \<Rightarrow> qnorm [vmin, vx, vy - vcirc, vz])"

subsection \<open>The mass integrator\<close>

text \<open>
  The variables that the loop of \<^verbatim>\<open>calculate_Mx\<close> assigns. \<^verbatim>\<open>vrel\<close> is unbound until the
  first triple passes the filter.
\<close>

record Mx_state =
  vbar :: real
  Mxs :: "real list"
  vrel :: "real option"

text \<open>
  One iteration:
  \<^verbatim>\<open>
  if qnorm(vx, vy, vz) <= vesc:
      maxwellian = f_BM_bin(qnorm(vx, vy, vz), vbin=vstep, vvir=vvir)
      vrel = qnorm(vmin, vx, vy - vcirc, vz)
      vbar = vbar + vrel * maxwellian  # cumulative
      mx = Arho * vbar
      Mxs[i] = mx
  \<close>
\<close>

definition Mx_body ::
  "real \<Rightarrow> real \<Rightarrow> real \<Rightarrow> real \<Rightarrow> real \<Rightarrow> real \<Rightarrow> Mx_state \<Rightarrow> nat \<times> triple \<Rightarrow> Mx_state" where
  "Mx_body vstep vvir vesc vcirc vmin Arho st it =
     (case it of (i, (vx, vy, vz)) \<Rightarrow>
        if qnorm [vx, vy, vz] \<le> vesc then
          (let maxwellian = f_BM_bin (qnorm [vx, vy, vz]) vstep vvir;
               vrel' = qnorm [vmin, vx, vy - vcirc, vz];
               vbar' = vbar st + vrel' * maxwellian;
               mx = Arho * vbar'
           in \<lparr>vbar = vbar', Mxs = (Mxs st)[i := mx], vrel = Some vrel'\<rparr>)
        else st)"

text \<open>
  \<^verbatim>\<open>
  def calculate_Mx(vels, vvir, vesc, vcirc, vmin, Arho, m_unit=u.g):
      vbar = 0.0 * u.km / u.s
      Vhold = 800.0 * u.km / u.s
      ... validation ...
      Mxs = np.zeros(len(vels) ** 3) * m_unit
      iterator = itertools.product(vels, vels, vels)
      for i, (vx, vy, vz) in tqdm(enumerate(iterator), total=len(Mxs)):
          ... body ...
      # update variable
      Vhold = vrel
      # /for
      Mxs = Mxs[Mxs > 0 * m_unit]
      return Mxs, vbar, Vhold
  \<close>
  The assignment \<^verbatim>\<open>Vhold = vrel\<close> stands after the loop, at the indentation of the
  \<^verbatim>\<open>for\<close>: it runs once, overwrites the seed of 800 km/s, and raises
  \<^verbatim>\<open>UnboundLocalError\<close> when no iteration has assigned \<^verbatim>\<open>vrel\<close>.
\<close>

definition calculate_Mx ::
  "real list \<Rightarrow> real \<Rightarrow> real \<Rightarrow> real \<Rightarrow> real \<Rightarrow> real \<Rightarrow> py_error + (real list \<times> real \<times> real)" where
  "calculate_Mx vels vvir vesc vcirc vmin Arho =
     (case check_steps vels of
        Inl e \<Rightarrow> Inl e
      | Inr vstep \<Rightarrow>
          (let st0 = \<lparr>vbar = 0, Mxs = replicate (length vels ^ 3) 0, vrel = None\<rparr>;
               st = foldl (Mx_body vstep vvir vesc vcirc vmin Arho) st0 (enumerate_product vels)
           in case vrel st of
                None \<Rightarrow> Inl UnboundLocalError
              | Some Vhold \<Rightarrow> Inr (filter (\<lambda>m. m > 0) (Mxs st), vbar st, Vhold)))"

subsection \<open>The cross-section integrator\<close>

record Sx_state =
  vhold :: real
  Sxs :: "real list"

text \<open>
  One iteration:
  \<^verbatim>\<open>
  if qnorm(vx, vy, vz) <= vesc:
      vrel = qnorm(vmin, vx, vy - vcirc, vz)
      if vrel > vhold:
          vrel = vhold
      vhold = vrel  # update vhold   # problem? never reset vhold
      sx = sigma_factor / vrel ** 2
      if sx < minsigma:
          sx = minsigma
      Sxs[i] = sx
  \<close>
  \<^verbatim>\<open>sigma_factor\<close> is \<^verbatim>\<open>None\<close> by default in \<^verbatim>\<open>calculate_Mx_and_Sx\<close>; the division then
  raises \<^verbatim>\<open>TypeError\<close>.
\<close>

definition Sx_body ::
  "real \<Rightarrow> real \<Rightarrow> real \<Rightarrow> real \<Rightarrow> real option \<Rightarrow> Sx_state \<Rightarrow> nat \<times> triple \<Rightarrow> py_error + Sx_state" where
  "Sx_body vesc vcirc vmin minsigma sigma_factor st it =
     (case it of (i, (vx, vy, vz)) \<Rightarrow>
        if qnorm [vx, vy, vz] \<le> vesc then
          (let vrel0 = qnorm [vmin, vx, vy - vcirc, vz];
               vrel' = (if vrel0 > vhold st then vhold st else vrel0)
           in case sigma_factor of
                None \<Rightarrow> Inl TypeError
              | Some sf \<Rightarrow>
                  (let sx0 = sf / vrel'\<^sup>2;
                       sx = (if sx0 < minsigma then minsigma else sx0)
                   in Inr \<lparr>vhold = vrel', Sxs = (Sxs st)[i := sx]\<rparr>))
        else Inr st)"

text \<open>The loop: the iterations in order, stopped by the first exception.\<close>

fun Sx_loop ::
  "real \<Rightarrow> real \<Rightarrow> real \<Rightarrow> real \<Rightarrow> real option \<Rightarrow> Sx_state \<Rightarrow> (nat \<times> triple) list \<Rightarrow> py_error + Sx_state" where
  "Sx_loop vesc vcirc vmin minsigma sigma_factor st [] = Inr st"
| "Sx_loop vesc vcirc vmin minsigma sigma_factor st (it # its) =
     (case Sx_body vesc vcirc vmin minsigma sigma_factor st it of
        Inl e \<Rightarrow> Inl e
      | Inr st' \<Rightarrow> Sx_loop vesc vcirc vmin minsigma sigma_factor st' its)"

text \<open>
  \<^verbatim>\<open>
  def calculate_Sx(vels, vesc, vhold, vcirc, vmin, minsigma, sigma_factor, sig_unit=u.cm ** 2):
      Sxs = np.zeros(len(vels) ** 3) * sig_unit
      iterator = itertools.product(vels, vels, vels)
      for i, (vx, vy, vz) in tqdm(enumerate(iterator), total=len(Sxs)):
          ... body ...
      Sxs = Sxs[Sxs > 0]
      return Sxs, vhold
  \<close>
\<close>

definition calculate_Sx ::
  "real list \<Rightarrow> real \<Rightarrow> real \<Rightarrow> real \<Rightarrow> real \<Rightarrow> real \<Rightarrow> real option \<Rightarrow> py_error + (real list \<times> real)" where
  "calculate_Sx vels vesc vhold0 vcirc vmin minsigma sigma_factor =
     (let st0 = \<lparr>vhold = vhold0, Sxs = replicate (length vels ^ 3) 0\<rparr>
      in case Sx_loop vesc vcirc vmin minsigma sigma_factor st0 (enumerate_product vels) of
           Inl e \<Rightarrow> Inl e
         | Inr st \<Rightarrow> Inr (filter (\<lambda>s. s > 0) (Sxs st), vhold st))"

text \<open>
  The carried velocity sampled once per qualifying triple, in the order of the loop: the
  value of \<^verbatim>\<open>vhold\<close> right after each iteration that passes the filter.
\<close>

fun vhold_trace ::
  "real \<Rightarrow> real \<Rightarrow> real \<Rightarrow> real \<Rightarrow> real option \<Rightarrow> Sx_state \<Rightarrow> (nat \<times> triple) list \<Rightarrow> real list" where
  "vhold_trace vesc vcirc vmin minsigma sigma_factor st [] = []"
| "vhold_trace vesc vcirc vmin minsigma sigma_factor st (it # its) =
     (case Sx_body vesc vcirc vmin minsigma sigma_factor st it of
        Inl e \<Rightarrow> []
      | Inr st' \<Rightarrow>
          (if qualifies vesc (snd it) then [vhold st'] else [])
          @ vhold_trace vesc vcirc vmin minsigma sigma_factor st' its)"

subsection \<open>The threshold calculator\<close>

text \<open>
  \<^verbatim>\<open>
  def calculate_Mx_and_Sx(vels, vvir=250 * _KMS, vesc=550 * _KMS, vcirc=220 * _KMS,
                          vmin=42.1 * _KMS, Arho=3 * u.g * u.s / u.m, *,
                          minsigma=6e-8 * u.cm ** 2, sigma_factor=None, ...):
      Mxs, vbar, Vhold = calculate_Mx(vels, vvir=vvir, vesc=vesc, vcirc=vcirc, vmin=vmin,
                                      Arho=Arho, m_unit=m_unit)
      Sxs, Vhold = calculate_Sx(vels, vesc=vesc, vhold=Vhold, vmin=vmin, vcirc=vcirc,
                                minsigma=minsigma, sig_unit=sig_unit,
                                sigma_factor=sigma_factor)
      return Mxs, Sxs, vbar, Vhold
  \<close>
\<close>

definition calculate_Mx_and_Sx ::
  "real list \<Rightarrow> real \<Rightarrow> real \<Rightarrow> real \<Rightarrow> real \<Rightarrow> real \<Rightarrow> real \<Rightarrow> real option
     \<Rightarrow> py_error + (real list \<times> real list \<times> real \<times> real)" where
  "calculate_Mx_and_Sx vels vvir vesc vcirc vmin Arho minsigma sigma_factor =
     (case calculate_Mx vels vvir vesc vcirc vmin Arho of
        Inl e \<Rightarrow> Inl e
      | Inr (Mxs', vbar', Vhold) \<Rightarrow>
          (case calculate_Sx vels vesc Vhold vcirc vmin minsigma sigma_factor of
             Inl e \<Rightarrow> Inl e
           | Inr (Sxs', Vhold') \<Rightarrow> Inr (Mxs', Sxs', vbar', Vhold')))"

subsection \<open>The threshold calculator on an explicit store\<close>

text \<open>
  numpy arrays are mutable objects that Python passes by reference. To state what one
  call leaves behind for the next, the arrays live in a store: a map from addresses to
  contents, with the next unused address. The scalar parameters are immutable values.
\<close>

record store =
  arrays :: "nat \<Rightarrow> real list option"
  next_addr :: nat

text \<open>
  The contents at an address. The code below dereferences only the address of its
  argument and addresses it has allocated itself.
\<close>

definition array_at :: "store \<Rightarrow> nat \<Rightarrow> real list" where
  "array_at s a = (case arrays s a of None \<Rightarrow> [] | Some xs \<Rightarrow> xs)"

text \<open>
  Allocation of a fresh array: \<^verbatim>\<open>np.zeros(n)\<close>, and the copy that boolean-mask indexing
  \<^verbatim>\<open>Mxs[Mxs > 0]\<close> returns.
\<close>

definition new_array :: "real list \<Rightarrow> store \<Rightarrow> nat \<times> store" where
  "new_array xs s =
     (next_addr s, s\<lparr>arrays := (arrays s)(next_addr s \<mapsto> xs), next_addr := Suc (next_addr s)\<rparr>)"

text \<open>The array at \<open>p\<close> after writes in place, such as \<^verbatim>\<open>Mxs[i] = mx\<close>.\<close>

definition set_array :: "nat \<Rightarrow> real list \<Rightarrow> store \<Rightarrow> store" where
  "set_array p xs s = s\<lparr>arrays := (arrays s)(p \<mapsto> xs)\<rparr>"

text \<open>
  One iteration of the loop of \<^verbatim>\<open>calculate_Mx\<close> on the store: the body reads and writes
  the array \<^verbatim>\<open>Mxs\<close> at its address \<open>p\<close>, and the local variables \<^verbatim>\<open>vbar\<close> and \<^verbatim>\<open>vrel\<close>.
\<close>

definition Mx_body_st ::
  "real \<Rightarrow> real \<Rightarrow> real \<Rightarrow> real \<Rightarrow> real \<Rightarrow> real \<Rightarrow> nat
     \<Rightarrow> store \<times> real \<times> real option \<Rightarrow> nat \<times> triple \<Rightarrow> store \<times> real \<times> real option" where
  "Mx_body_st vstep vvir vesc vcirc vmin Arho p c it =
     (case c of (s, vb, vr) \<Rightarrow>
        (let st = Mx_body vstep vvir vesc vcirc vmin Arho
                    \<lparr>vbar = vb, Mxs = array_at s p, vrel = vr\<rparr> it
         in (set_array p (Mxs st) s, vbar st, vrel st)))"

text \<open>
  \<^verbatim>\<open>calculate_Mx\<close> given the address \<open>a\<close> of \<^verbatim>\<open>vels\<close>: it returns the address of the
  compacted mass array, and the store it leaves.
\<close>

definition calculate_Mx_st ::
  "nat \<Rightarrow> real \<Rightarrow> real \<Rightarrow> real \<Rightarrow> real \<Rightarrow> real \<Rightarrow> store
     \<Rightarrow> (py_error + (nat \<times> real \<times> real)) \<times> store" where
  "calculate_Mx_st a vvir vesc vcirc vmin Arho s =
     (let vels = array_at s a
      in case check_steps vels of
           Inl e \<Rightarrow> (Inl e, s)
         | Inr vstep \<Rightarrow>
             (case new_array (replicate (length vels ^ 3) 0) s of (p, s1) \<Rightarrow>
                (case foldl (Mx_body_st vstep vvir vesc vcirc vmin Arho p) (s1, 0, None)
                        (enumerate_product vels) of
                   (s2, vb, vr) \<Rightarrow>
                     (case vr of
                        None \<Rightarrow> (Inl UnboundLocalError, s2)
                      | Some Vhold \<Rightarrow>
                          (case new_array (filter (\<lambda>m. m > 0) (array_at s2 p)) s2 of
                             (q, s3) \<Rightarrow> (Inr (q, vb, Vhold), s3))))))"

text \<open>
  The loop of \<^verbatim>\<open>calculate_Sx\<close> on the store, with the array \<^verbatim>\<open>Sxs\<close> at \<open>p\<close> and the local
  variable \<^verbatim>\<open>vhold\<close>; an exception leaves the store as it is at that moment.
\<close>

fun Sx_loop_st ::
  "real \<Rightarrow> real \<Rightarrow> real \<Rightarrow> real \<Rightarrow> real option \<Rightarrow> nat \<Rightarrow> store \<Rightarrow> real
     \<Rightarrow> (nat \<times> triple) list \<Rightarrow> (py_error + real) \<times> store" where
  "Sx_loop_st vesc vcirc vmin minsigma sigma_factor p s vh [] = (Inr vh, s)"
| "Sx_loop_st vesc vcirc vmin minsigma sigma_factor p s vh (it # its) =
     (case Sx_body vesc vcirc vmin minsigma sigma_factor \<lparr>vhold = vh, Sxs = array_at s p\<rparr> it of
        Inl e \<Rightarrow> (Inl e, s)
      | Inr st \<Rightarrow>
          Sx_loop_st vesc vcirc vmin minsigma sigma_factor p (set_array p (Sxs st) s) (vhold st) its)"

definition calculate_Sx_st ::
  "nat \<Rightarrow> real \<Rightarrow> real \<Rightarrow> real \<Rightarrow> real \<Rightarrow> real \<Rightarrow> real option \<Rightarrow> store
     \<Rightarrow> (py_error + (nat \<times> real)) \<times> store" where
  "calculate_Sx_st a vesc vhold0 vcirc vmin minsigma sigma_factor s =
     (let vels = array_at s a
      in case new_array (replicate (length vels ^ 3) 0) s of (p, s1) \<Rightarrow>
           (case Sx_loop_st vesc vcirc vmin minsigma sigma_factor p s1 vhold0
                   (enumerate_product vels) of
              (Inl e, s2) \<Rightarrow> (Inl e, s2)
            | (Inr vh, s2) \<Rightarrow>
                (case new_array (filter (\<lambda>x. x > 0) (array_at s2 p)) s2 of
                   (q, s3) \<Rightarrow> (Inr (q, vh), s3))))"

text \<open>\<^verbatim>\<open>calculate_Mx_and_Sx\<close> on the store: the two integrators in sequence.\<close>

definition calculate_Mx_and_Sx_st ::
  "nat \<Rightarrow> real \<Rightarrow> real \<Rightarrow> real \<Rightarrow> real \<Rightarrow> real \<Rightarrow> real \<Rightarrow> real option \<Rightarrow> store
     \<Rightarrow> (py_error + (nat \<times> nat \<times> real \<times> real)) \<times> store" where
  "calculate_Mx_and_Sx_st a vvir vesc vcirc vmin Arho minsigma sigma_factor s =
     (case calculate_Mx_st a vvir vesc vcirc vmin Arho s of
        (Inl e, s1) \<Rightarrow> (Inl e, s1)
      | (Inr (pM, vb, Vhold), s1) \<Rightarrow>
          (case calculate_Sx_st a vesc Vhold vcirc vmin minsigma sigma_factor s1 of
             (Inl e, s2) \<Rightarrow> (Inl e, s2)
           | (Inr (pS, Vhold'), s2) \<Rightarrow> (Inr (pM, pS, vb, Vhold'), s2)))"

text \<open>
  What the caller sees of a result in a store: the exception, or the contents of the two
  returned arrays with the two scalars.
\<close>

definition observe ::
  "store \<Rightarrow> py_error + (nat \<times> nat \<times> real \<times> real)
     \<Rightarrow> py_error + (real list \<times> real list \<times> real \<times> real)" where
  "observe s r =
     (case r of
        Inl e \<Rightarrow> Inl e
      | Inr (pM, pS, vb, Vh) \<Rightarrow> Inr (array_at s pM, array_at s pS, vb, Vh))"

text \<open>
  A call from \<open>s\<close> to \<open>s'\<close> only allocates: every array that existed in \<open>s\<close> is unchanged.
\<close>

definition frame :: "store \<Rightarrow> store \<Rightarrow> bool" where
  "frame s s' \<longleftrightarrow> next_addr s \<le> next_addr s' \<and> (\<forall>b < next_addr s. arrays s' b = arrays s b)"

subsection \<open>The loop invariant of the mass integrator\<close>

text \<open>
  After \<open>n\<close> iterations, with \<open>c\<close> the constant factor of the Maxwellian weight: the slots
  from \<open>n\<close> on are still zero, the positive entries written so far are in non-decreasing
  order and bounded by \<open>Arho * vbar\<close>, and \<open>Arho * vbar\<close> is not positive when \<open>Arho * c\<close> is
  negative.
\<close>

definition Mx_inv :: "real \<Rightarrow> real \<Rightarrow> Mx_state \<Rightarrow> nat \<Rightarrow> bool" where
  "Mx_inv Arho c st n \<longleftrightarrow>
     (\<forall>j. n \<le> j \<and> j < length (Mxs st) \<longrightarrow> Mxs st ! j = 0)
     \<and> sorted (filter (\<lambda>m. m > 0) (take n (Mxs st)))
     \<and> (\<forall>m \<in> set (take n (Mxs st)). 0 < m \<longrightarrow> m \<le> Arho * vbar st)
     \<and> (Arho * c < 0 \<longrightarrow> Arho * vbar st \<le> 0)"

section \<open>Properties\<close>

subsection \<open>Bounds on the square root of two\<close>

lemma sqrt2_lower: "1.414213562 < sqrt (2::real)"
  by (rule real_less_rsqrt) (simp add: power2_eq_square)

lemma sqrt2_upper: "sqrt (2::real) < 1.414213563"
  by (rule real_less_lsqrt) (simp_all add: power2_eq_square)

lemma inverse_sqrt2: "1 / sqrt (2::real) = sqrt 2 / 2"
  by (simp add: real_div_sqrt)

lemma circular_factor_bounds:
  "0.2928932185 < 1 - 1 / sqrt (2::real)" "1 - 1 / sqrt (2::real) < 0.292893219"
  using sqrt2_lower sqrt2_upper unfolding inverse_sqrt2 by simp_all

subsection \<open>Two bodies\<close>

lemma circular_factor_range: "0 < 1 - 1 / sqrt (2::real)" "1 - 1 / sqrt (2::real) < 1"
  using circular_factor_bounds by simp_all

lemma circular_defect: "ve2 - ve2 / sqrt 2 = ve2 * (1 - 1 / sqrt (2::real))"
  by (simp add: algebra_simps)

lemma circular_square_less:
  assumes "ve2 \<noteq> (0::real)"
  shows "(ve2 - ve2 / sqrt 2)\<^sup>2 < ve2\<^sup>2"
proof -
  define k :: real where "k = 1 - 1 / sqrt 2"
  have k: "0 < k" "k < 1" using circular_factor_range by (simp_all add: k_def)
  have "k\<^sup>2 < 1\<^sup>2" using k by (intro power_strict_mono) simp_all
  then have "k\<^sup>2 < 1" by simp
  moreover have "0 < ve2\<^sup>2" using assms by simp
  ultimately have "ve2\<^sup>2 * k\<^sup>2 < ve2\<^sup>2 * 1" by (intro mult_strict_left_mono)
  then have "(ve2 * k)\<^sup>2 < ve2\<^sup>2" by (simp only: power_mult_distrib mult_1_right)
  moreover have "ve2 - ve2 / sqrt 2 = ve2 * k" unfolding k_def by (rule circular_defect)
  ultimately show ?thesis by (simp only:)
qed

text \<open>
  Claim C9, as amended. For all \<open>ve1\<close> and \<open>ve2\<close>, \<^verbatim>\<open>twobody_vesc\<close> called with an orbital
  velocity that is the bare number zero returns what it returns when the orbital velocity
  is omitted: the truthiness test in \<^verbatim>\<open>vo = vo or ve2 / _sqrt2\<close> replaces the zero by the
  circular-orbit default, so the result is \<open>sqrt (ve1\<^sup>2 + (ve2 - ve2 / sqrt 2)\<^sup>2)\<close> and,
  unless \<open>ve2\<close> is zero, differs from \<open>sqrt (ve1\<^sup>2 + ve2\<^sup>2)\<close>.
\<close>

theorem twobody_vesc_zero_is_default:
  "twobody_vesc ve1 ve2 (Some (Bare 0)) = twobody_vesc ve1 ve2 None
   \<and> twobody_vesc ve1 ve2 (Some (Bare 0)) = sqrt (ve1\<^sup>2 + (ve2 - ve2 / sqrt 2)\<^sup>2)
   \<and> (ve2 \<noteq> 0 \<longrightarrow> twobody_vesc ve1 ve2 (Some (Bare 0)) \<noteq> sqrt (ve1\<^sup>2 + ve2\<^sup>2))"
proof -
  have v: "twobody_vesc ve1 ve2 (Some (Bare 0)) = sqrt (ve1\<^sup>2 + (ve2 - ve2 / sqrt 2)\<^sup>2)"
    by (simp add: twobody_vesc_def py_or_def sqrt2_def)
  have d: "twobody_vesc ve1 ve2 (Some (Bare 0)) = twobody_vesc ve1 ve2 None"
    by (simp add: twobody_vesc_def py_or_def)
  have n: "twobody_vesc ve1 ve2 (Some (Bare 0)) \<noteq> sqrt (ve1\<^sup>2 + ve2\<^sup>2)" if "ve2 \<noteq> 0"
  proof -
    have "ve1\<^sup>2 + (ve2 - ve2 / sqrt 2)\<^sup>2 < ve1\<^sup>2 + ve2\<^sup>2"
      using circular_square_less [OF that] by simp
    then have "sqrt (ve1\<^sup>2 + (ve2 - ve2 / sqrt 2)\<^sup>2) < sqrt (ve1\<^sup>2 + ve2\<^sup>2)"
      by (simp only: real_sqrt_less_iff)
    with v show ?thesis by simp
  qed
  from v d n show ?thesis by blast
qed

theorem twobody_vesc_zero_is_default_witness:
  "twobody_vesc 3 4 (Some (Bare 0)) = twobody_vesc 3 4 None
   \<and> twobody_vesc 3 4 (Some (Bare 0)) = sqrt (3\<^sup>2 + (4 - 4 / sqrt 2)\<^sup>2)
   \<and> (4 \<noteq> (0::real)) \<and> twobody_vesc 3 4 (Some (Bare 0)) \<noteq> sqrt (3\<^sup>2 + 4\<^sup>2)"
  using twobody_vesc_zero_is_default [of 3 4] by simp

text \<open>
  Claim C9, as stated, fails. It speaks of every orbital velocity equal to zero. A
  \<^verbatim>\<open>Quantity\<close> of zero, the documented type of the argument, is true in
  \<^verbatim>\<open>vo or ve2 / _sqrt2\<close> and is kept: at \<open>ve1 = 3\<close>, \<open>ve2 = 4\<close> the code returns
  \<open>sqrt (3\<^sup>2 + 4\<^sup>2) = 5\<close>, which is not what it returns with the orbital velocity omitted.
\<close>

theorem twobody_vesc_quantity_zero:
  "twobody_vesc 3 4 (Some (Quantity 0)) = sqrt (3\<^sup>2 + 4\<^sup>2)
   \<and> twobody_vesc 3 4 (Some (Quantity 0)) \<noteq> twobody_vesc 3 4 None"
proof -
  have q: "twobody_vesc 3 4 (Some (Quantity 0)) = sqrt (3\<^sup>2 + 4\<^sup>2)"
    by (simp add: twobody_vesc_def py_or_def)
  have "(4 - 4 / sqrt 2)\<^sup>2 < (4::real)\<^sup>2"
    by (rule circular_square_less) simp
  then have "3\<^sup>2 + (4 - 4 / sqrt 2 :: real)\<^sup>2 < 3\<^sup>2 + 4\<^sup>2" by simp
  then have "sqrt (3\<^sup>2 + (4 - 4 / sqrt 2 :: real)\<^sup>2) < sqrt (3\<^sup>2 + 4\<^sup>2)"
    by (simp only: real_sqrt_less_iff)
  moreover have "twobody_vesc 3 4 None = sqrt (3\<^sup>2 + (4 - 4 / sqrt 2)\<^sup>2)"
    by (simp add: twobody_vesc_def py_or_def sqrt2_def)
  ultimately have "twobody_vesc 3 4 None < twobody_vesc 3 4 (Some (Quantity 0))"
    using q by (simp only:)
  with q show ?thesis by simp
qed

text \<open>
  With the orbital velocity omitted, or given and not the bare number zero, the code
  computes the formula of the specification; the documented example evaluates to
  16.6486 km/s within 0.0001.
\<close>

lemma twobody_vesc_formula:
  "vo \<noteq> Some (Bare 0) \<Longrightarrow> twobody_vesc ve1 ve2 vo = spec_twobody_vesc ve1 ve2 vo"
proof (cases vo)
  case None
  then show ?thesis
    by (simp add: twobody_vesc_def spec_twobody_vesc_def py_or_def sqrt2_def)
next
  case (Some x)
  assume "vo \<noteq> Some (Bare 0)"
  with Some show ?thesis
    by (cases x) (simp_all add: twobody_vesc_def spec_twobody_vesc_def py_or_def)
qed

lemma twobody_vesc_example: "\<bar>twobody_vesc 11.186 42.1 None - 16.6486\<bar> < 0.0001"
proof -
  define k :: real where "k = 1 - 1 / sqrt 2"
  have k: "0.2928932185 < k" "k < 0.292893219"
    using circular_factor_bounds by (simp_all add: k_def)
  have e: "42.1 - 42.1 / sqrt (2::real) = 42.1 * k"
    by (simp add: k_def algebra_simps)
  have k2l: "0.2928932185\<^sup>2 < k\<^sup>2" using k by (intro power_strict_mono) simp_all
  have k2u: "k\<^sup>2 < 0.292893219\<^sup>2" using k by (intro power_strict_mono) simp_all
  define S :: real where "S = 11.186\<^sup>2 + (42.1 * k)\<^sup>2"
  have S: "S = 11.186\<^sup>2 + 42.1\<^sup>2 * k\<^sup>2"
    unfolding S_def by (simp only: power_mult_distrib)
  have l: "16.6485\<^sup>2 < S" using k2l unfolding S by (simp add: power2_eq_square)
  have u: "S < 16.6487\<^sup>2" using k2u unfolding S by (simp add: power2_eq_square)
  have "16.6485 < sqrt S" using l by (intro real_less_rsqrt)
  moreover have "sqrt S < 16.6487" using u by (intro real_less_lsqrt) simp_all
  ultimately have b: "\<bar>sqrt S - 16.6486\<bar> < 0.0001" by linarith
  have "twobody_vesc 11.186 42.1 None = sqrt S"
    unfolding twobody_vesc_def py_or_def sqrt2_def S_def Let_def option.case e ..
  with b show ?thesis by (simp only:)
qed

text \<open>
  Claim C6. \<^verbatim>\<open>twobody_vesc\<close> is to return \<open>sqrt (ve1\<^sup>2 + (ve2 - vo)\<^sup>2)\<close>, where \<open>vo\<close> is
  \<open>ve2 / sqrt 2\<close> only when it is omitted. At the bare numbers \<open>ve1 = 3\<close>, \<open>ve2 = 4\<close> and an
  explicit \<open>vo = 0\<close> that formula gives 5, and the code returns less: the comment of the
  source says \<^verbatim>\<open>None -> circular\<close>, but the test \<^verbatim>\<open>vo or ...\<close> also replaces a bare zero.
\<close>

theorem twobody_vesc_explicit_zero:
  "spec_twobody_vesc 3 4 (Some (Bare 0)) = 5 \<and> twobody_vesc 3 4 (Some (Bare 0)) < 5"
proof -
  have a: "spec_twobody_vesc 3 4 (Some (Bare 0)) = 5"
    by (simp add: spec_twobody_vesc_def real_sqrt_unique)
  have "(4 - 4 / sqrt 2)\<^sup>2 < (4::real)\<^sup>2"
    by (rule circular_square_less) simp
  then have "3\<^sup>2 + (4 - 4 / sqrt 2 :: real)\<^sup>2 < 25" by simp
  then have "sqrt (3\<^sup>2 + (4 - 4 / sqrt 2 :: real)\<^sup>2) < sqrt 25"
    by (simp only: real_sqrt_less_iff)
  also have "sqrt 25 = (5::real)" by (simp add: real_sqrt_unique)
  finally have "twobody_vesc 3 4 (Some (Bare 0)) < 5"
    by (simp add: twobody_vesc_def py_or_def sqrt2_def)
  with a show ?thesis by simp
qed

subsection \<open>A chain of bodies\<close>

lemma multibody_vesc_total:
  "multibody_vesc (v # rest) None False
   = Inr (Total (foldl norm_v1_v2 v (map (\<lambda>x. x * (1 - 1 / sqrt 2)) rest)))"
  by (simp add: multibody_vesc_def as_quantity_def reduce_def)

lemma multibody_vesc_accumulate:
  "multibody_vesc vescs None True = Inl NotImplementedError"
  by (simp add: multibody_vesc_def as_quantity_def)

lemma norm_v1_v2_nested: "norm_v1_v2 (norm_v1_v2 a b) c = sqrt (a\<^sup>2 + b\<^sup>2 + c\<^sup>2)"
  by (simp add: norm_v1_v2_def)

lemma multibody_vesc_example_value:
  "\<bar>foldl norm_v1_v2 11.186 (map (\<lambda>x. x * (1 - 1 / sqrt 2)) [42.1, 550]) - 161.9493\<bar> < 0.0001"
proof -
  define k :: real where "k = 1 - 1 / sqrt 2"
  have k: "0.2928932185 < k" "k < 0.292893219"
    using circular_factor_bounds by (simp_all add: k_def)
  have k2l: "0.2928932185\<^sup>2 < k\<^sup>2" using k by (intro power_strict_mono) simp_all
  have k2u: "k\<^sup>2 < 0.292893219\<^sup>2" using k by (intro power_strict_mono) simp_all
  define S :: real where "S = 11.186\<^sup>2 + (42.1 * k)\<^sup>2 + (550 * k)\<^sup>2"
  have S: "S = 11.186\<^sup>2 + (42.1\<^sup>2 + 550\<^sup>2) * k\<^sup>2"
    unfolding S_def by (simp only: power_mult_distrib distrib_right add.assoc)
  have l: "161.9492\<^sup>2 < S" using k2l unfolding S by (simp add: power2_eq_square)
  have u: "S < 161.9494\<^sup>2" using k2u unfolding S by (simp add: power2_eq_square)
  have "161.9492 < sqrt S" using l by (intro real_less_rsqrt)
  moreover have "sqrt S < 161.9494" using u by (intro real_less_lsqrt) simp_all
  ultimately have b: "\<bar>sqrt S - 161.9493\<bar> < 0.0001" by linarith
  have "foldl norm_v1_v2 11.186 (map (\<lambda>x. x * k) [42.1, 550]) = sqrt S"
    unfolding S_def by (simp only: list.map foldl.simps norm_v1_v2_nested)
  with b show ?thesis unfolding k_def by (simp only:)
qed

text \<open>
  Without \<^verbatim>\<open>accumulate\<close> and with \<^verbatim>\<open>vo=None\<close>, \<^verbatim>\<open>multibody_vesc\<close> multiplies every velocity
  of the chain but the first by \<open>1 - 1 / sqrt 2\<close> and reduces the chain from the left with
  \<open>norm_v1_v2\<close>; a single velocity is returned unchanged; and the chain 11.186, 42.1, 550
  gives 161.9493 km/s within 0.0001.
\<close>

lemma multibody_vesc_reduction:
  "multibody_vesc (v # rest) None False
     = Inr (Total (foldl norm_v1_v2 v (map (\<lambda>x. x * (1 - 1 / sqrt 2)) rest)))
   \<and> multibody_vesc [v] None False = Inr (Total v)
   \<and> (\<exists>r. multibody_vesc [11.186, 42.1, 550] None False = Inr (Total r)
          \<and> \<bar>r - 161.9493\<bar> < 0.0001)"
proof -
  have single: "multibody_vesc [v] None False = Inr (Total v)"
    by (simp add: multibody_vesc_total)
  have "\<exists>r. multibody_vesc [11.186, 42.1, 550] None False = Inr (Total r)
          \<and> \<bar>r - 161.9493\<bar> < 0.0001"
    using multibody_vesc_example_value by (simp only: multibody_vesc_total) blast
  with single show ?thesis
    by (simp only: multibody_vesc_total simp_thms)
qed

text \<open>
  Claim C5. With \<^verbatim>\<open>accumulate\<close>, \<^verbatim>\<open>multibody_vesc\<close> is to return the ordered sequence of
  partial compositions, one per prefix of the chain. On the chain 11.186, 42.1, 550 it
  returns nothing: the code hands the iterator \<^verbatim>\<open>itertools.accumulate(vs, _norm_v1_v2)\<close>
  to \<^verbatim>\<open>as_quantity\<close>, which raises \<^verbatim>\<open>NotImplementedError\<close>. The rest of the claim holds
  (\<open>multibody_vesc_reduction\<close>).
\<close>

theorem multibody_vesc_accumulate_fails:
  "multibody_vesc [11.186, 42.1, 550] None True = Inl NotImplementedError"
  by (rule multibody_vesc_accumulate)

subsection \<open>Validation of the velocity axis\<close>

lemma check_steps_ValueError:
  "check_steps vels = Inl ValueError \<longleftrightarrow> \<not> allclose (butlast (diff vels)) (tl (diff vels))"
  by (simp add: check_steps_def Let_def split: list.splits)

lemma calculate_Mx_ValueError:
  "calculate_Mx vels vvir vesc vcirc vmin Arho = Inl ValueError
   \<longleftrightarrow> check_steps vels = Inl ValueError"
  by (auto simp: calculate_Mx_def Let_def split: sum.splits option.splits)

lemma allclose_Cons:
  "allclose (a # as) (b # bs) \<longleftrightarrow> isclose a b \<and> allclose as bs"
  by (simp add: allclose_def)

lemma allclose_Nil [simp]: "allclose [] bs" "allclose as []"
  by (simp_all add: allclose_def)

lemma isclose_refl: "isclose a a"
  by (simp add: isclose_def)

lemma allclose_replicate:
  "allclose (butlast (replicate n d)) (tl (replicate n d))"
proof (induction n)
  case 0
  then show ?case by simp
next
  case (Suc n)
  then show ?case
    by (cases n) (simp_all add: allclose_Cons isclose_refl)
qed

lemma diff_evenly_spaced:
  "diff (map (\<lambda>i. a + real i * d) [k..<k + n]) = replicate (n - 1) d"
proof (induction n arbitrary: k)
  case 0
  then show ?case by simp
next
  case (Suc n)
  show ?case
  proof (cases n)
    case 0
    then show ?thesis by simp
  next
    case (Suc m)
    have "[k..<k + Suc (Suc m)] = k # Suc k # [Suc (Suc k)..<Suc k + Suc m]"
      by (simp add: upt_rec)
    moreover have "[Suc k..<Suc k + Suc m] = Suc k # [Suc (Suc k)..<Suc k + Suc m]"
      by (simp add: upt_rec)
    ultimately have "diff (map (\<lambda>i. a + real i * d) [k..<k + Suc (Suc m)])
          = d # diff (map (\<lambda>i. a + real i * d) [Suc k..<Suc k + Suc m])"
      by (simp add: algebra_simps)
    then show ?thesis using Suc.IH [of "Suc k"] Suc by simp
  qed
qed

lemma check_steps_evenly_spaced:
  assumes "2 \<le> n"
  shows "check_steps (map (\<lambda>i. a + real i * d) [0..<n]) = Inr \<bar>d\<bar>"
proof -
  obtain m where m: "n - 1 = Suc m"
    using assms by (cases "n - 1") simp_all
  have steps: "diff (map (\<lambda>i. a + real i * d) [0..<n]) = replicate (Suc m) d"
    using diff_evenly_spaced [of a d 0 n] m by simp
  have "allclose (butlast (replicate (Suc m) d)) (tl (replicate (Suc m) d))"
    by (rule allclose_replicate)
  then show ?thesis
    unfolding check_steps_def steps Let_def by simp
qed

lemma check_steps_perturbed: "check_steps [0, 1, 2, 4] = Inl ValueError"
  by (simp add: check_steps_def allclose_Cons isclose_def)

lemma check_steps_drift: "check_steps [0, 1, 2.000009, 3.000027] = Inr 1"
  by (simp add: check_steps_def allclose_Cons isclose_def)

lemma spec_drift: "\<not> spec_check_steps [0, 1, 2.000009, 3.000027]"
  by (simp add: spec_check_steps_def isclose_def)

subsection \<open>The carried velocity of the mass integrator\<close>

lemma Mx_body_skip:
  "\<not> qualifies vesc t \<Longrightarrow> Mx_body vstep vvir vesc vcirc vmin Arho st (i, t) = st"
  by (cases t) (simp add: Mx_body_def qualifies_def)

lemma Mx_body_hit:
  "qualifies vesc t \<Longrightarrow>
   Mx_body vstep vvir vesc vcirc vmin Arho st (i, t)
   = \<lparr>vbar = vbar st + vrel_of vmin vcirc t * f_BM_bin (qnorm [fst t, fst (snd t), snd (snd t)]) vstep vvir,
      Mxs = (Mxs st)[i := Arho * (vbar st + vrel_of vmin vcirc t
                * f_BM_bin (qnorm [fst t, fst (snd t), snd (snd t)]) vstep vvir)],
      vrel = Some (vrel_of vmin vcirc t)\<rparr>"
  by (cases t) (simp add: Mx_body_def qualifies_def vrel_of_def Let_def)

lemma Mx_loop_vrel:
  "vrel (foldl (Mx_body vstep vvir vesc vcirc vmin Arho) st (List.enumerate n ts))
   = (if filter (qualifies vesc) ts = [] then vrel st
      else Some (vrel_of vmin vcirc (last (filter (qualifies vesc) ts))))"
proof (induction ts arbitrary: st n)
  case Nil
  then show ?case by simp
next
  case (Cons t ts)
  show ?case
  proof (cases "qualifies vesc t")
    case True
    then show ?thesis
      by (simp add: Cons.IH Mx_body_hit)
  next
    case False
    then show ?thesis
      by (simp add: Cons.IH Mx_body_skip)
  qed
qed

lemma Mx_loop_length:
  "length (Mxs (foldl (Mx_body vstep vvir vesc vcirc vmin Arho) st (List.enumerate n ts)))
   = length (Mxs st)"
proof (induction ts arbitrary: st n)
  case Nil
  then show ?case by simp
next
  case (Cons t ts)
  then show ?case
    by (cases "qualifies vesc t") (simp_all add: Mx_body_hit Mx_body_skip)
qed

lemma calculate_Mx_unbound:
  assumes "check_steps vels = Inr vstep" and "filter (qualifies vesc) (product3 vels) = []"
  shows "calculate_Mx vels vvir vesc vcirc vmin Arho = Inl UnboundLocalError"
  using assms by (simp add: calculate_Mx_def enumerate_product_def Mx_loop_vrel)

lemma calculate_Mx_Vhold:
  assumes "check_steps vels = Inr vstep" and "filter (qualifies vesc) (product3 vels) \<noteq> []"
  shows "\<exists>Ms vb. calculate_Mx vels vvir vesc vcirc vmin Arho
            = Inr (Ms, vb, vrel_of vmin vcirc (last (filter (qualifies vesc) (product3 vels))))"
  using assms by (simp add: calculate_Mx_def enumerate_product_def Mx_loop_vrel Let_def)

lemma qualifies_iff:
  "0 \<le> vesc \<Longrightarrow> qualifies vesc (vx, vy, vz) \<longleftrightarrow> vx\<^sup>2 + vy\<^sup>2 + vz\<^sup>2 \<le> vesc\<^sup>2"
proof -
  assume v: "0 \<le> vesc"
  have "sqrt (vx\<^sup>2 + vy\<^sup>2 + vz\<^sup>2) \<le> vesc \<longleftrightarrow> vx\<^sup>2 + vy\<^sup>2 + vz\<^sup>2 \<le> vesc\<^sup>2"
  proof
    assume "sqrt (vx\<^sup>2 + vy\<^sup>2 + vz\<^sup>2) \<le> vesc"
    then have "(sqrt (vx\<^sup>2 + vy\<^sup>2 + vz\<^sup>2))\<^sup>2 \<le> vesc\<^sup>2"
      by (intro power_mono) simp_all
    then show "vx\<^sup>2 + vy\<^sup>2 + vz\<^sup>2 \<le> vesc\<^sup>2" by simp
  next
    assume "vx\<^sup>2 + vy\<^sup>2 + vz\<^sup>2 \<le> vesc\<^sup>2"
    then show "sqrt (vx\<^sup>2 + vy\<^sup>2 + vz\<^sup>2) \<le> vesc"
      using v by (intro real_le_lsqrt)
  qed
  then show ?thesis by (simp add: qualifies_def qnorm_def add.assoc)
qed

lemma product3_two:
  "product3 [a, b] = [(a, a, a), (a, a, b), (a, b, a), (a, b, b),
                      (b, a, a), (b, a, b), (b, b, a), (b, b, b)]"
  by (simp add: product3_def)

lemma no_triple_example: "filter (qualifies 1) (product3 [1, 2]) = []"
  by (simp add: product3_two qualifies_iff)

lemma all_triples_example: "filter (qualifies 2) (product3 [0, 1]) = product3 [0, 1]"
  by (simp add: product3_two qualifies_iff)

lemma check_steps_two: "check_steps [a, b] = Inr \<bar>b - a\<bar>"
  by (simp add: check_steps_def)

text \<open>
  Claim C1. When no grid triple passes the filter \<open>s \<le> vesc\<close>, \<^verbatim>\<open>calculate_Mx\<close> is to yield
  the distinguished failure \<^verbatim>\<open>EmptyIntegrationDomain\<close> rather than crash on an undefined
  carried velocity. On the axis \<open>[1, 2]\<close> with escape velocity 1 the smallest speed is
  \<open>sqrt 3\<close>, no triple qualifies, and the code fails in \<^verbatim>\<open>Vhold = vrel\<close> with
  \<^verbatim>\<open>UnboundLocalError\<close>: the read of the variable that was never assigned.
\<close>

theorem calculate_Mx_empty_domain:
  "calculate_Mx [1, 2] 250 1 220 42.1 3 = Inl UnboundLocalError"
  by (rule calculate_Mx_unbound [OF check_steps_two no_triple_example])

text \<open>
  Claim C2. For every axis that passes the validation and every parameter set for which
  at least one triple qualifies, \<^verbatim>\<open>calculate_Mx\<close> returns, and its carried velocity
  \<^verbatim>\<open>Vhold\<close> is the relative velocity \<open>norm(vmin, vx, vy - vcirc, vz)\<close> of the last qualifying
  triple in the order of enumeration. The witness below is a run where that value,
  \<open>sqrt 3\<close>, is neither the minimum over the qualifying triples (0, at the first triple)
  nor the seed of 800.
\<close>

theorem calculate_Mx_Vhold_last:
  assumes "check_steps vels = Inr vstep" and "filter (qualifies vesc) (product3 vels) \<noteq> []"
  shows "\<exists>Ms vb. calculate_Mx vels vvir vesc vcirc vmin Arho
            = Inr (Ms, vb, vrel_of vmin vcirc (last (filter (qualifies vesc) (product3 vels))))"
  using assms by (rule calculate_Mx_Vhold)

theorem calculate_Mx_Vhold_last_witness:
  "check_steps [0, 1] = Inr 1 \<and> filter (qualifies 2) (product3 [0, 1]) \<noteq> []
   \<and> (\<exists>Ms vb. calculate_Mx [0, 1] 250 2 0 0 3 = Inr (Ms, vb, sqrt 3))"
proof -
  have c: "check_steps [0, 1] = Inr \<bar>1 - 0\<bar>" by (rule check_steps_two)
  have q: "filter (qualifies 2) (product3 [0, 1]) \<noteq> []"
    unfolding all_triples_example by (simp add: product3_two)
  have "vrel_of 0 0 (last (filter (qualifies 2) (product3 [0, 1]))) = sqrt 3"
    unfolding all_triples_example by (simp add: product3_two vrel_of_def qnorm_def)
  with calculate_Mx_Vhold_last [OF c q, of 250 0 0 3] c q show ?thesis by simp
qed

subsection \<open>Order of the mass array\<close>

lemma vrel_of_nonneg: "0 \<le> vrel_of vmin vcirc t"
  by (cases t) (simp add: vrel_of_def qnorm_def)

lemma flux_increment:
  "\<exists>w\<ge>0. vrel_of vmin vcirc t * f_BM_bin x vstep vvir
          = (vstep / vvir) ^ 3 / (pi powr (3 / 2)) * w"
proof -
  have "0 \<le> vrel_of vmin vcirc t * exp (- (x / vvir)\<^sup>2)"
    using vrel_of_nonneg [of vmin vcirc t] by simp
  moreover have "vrel_of vmin vcirc t * f_BM_bin x vstep vvir
      = (vstep / vvir) ^ 3 / (pi powr (3 / 2)) * (vrel_of vmin vcirc t * exp (- (x / vvir)\<^sup>2))"
    by (simp add: f_BM_bin_def Let_def)
  ultimately show ?thesis by blast
qed

lemma flux_increment_nonneg:
  "0 < vvir \<Longrightarrow> 0 \<le> vrel_of vmin vcirc t * f_BM_bin x \<bar>s\<bar> vvir"
  using vrel_of_nonneg [of vmin vcirc t] by (simp add: f_BM_bin_def Let_def)

lemma Mx_inv_skip:
  assumes "Mx_inv Arho c st n" and "n < length (Mxs st)"
  shows "Mx_inv Arho c st (Suc n)"
proof -
  have z: "Mxs st ! n = 0" using assms by (simp add: Mx_inv_def)
  have t: "take (Suc n) (Mxs st) = take n (Mxs st) @ [0]"
    using assms(2) z by (simp add: take_Suc_conv_app_nth)
  show ?thesis
    using assms(1) unfolding Mx_inv_def t by auto
qed

lemma Mx_inv_hit:
  assumes inv: "Mx_inv Arho c st n" and n: "n < length (Mxs st)"
    and w: "0 \<le> w"
  shows "Mx_inv Arho c \<lparr>vbar = vbar st + c * w, Mxs = (Mxs st)[n := Arho * (vbar st + c * w)],
            vrel = r\<rparr> (Suc n)"
proof -
  let ?mx = "Arho * (vbar st + c * w)"
  have mx: "?mx = Arho * vbar st + Arho * c * w" by (simp add: algebra_simps)
  have t: "take (Suc n) ((Mxs st)[n := ?mx]) = take n (Mxs st) @ [?mx]"
    using n by (simp add: take_Suc_conv_app_nth)
  have old: "\<forall>m \<in> set (take n (Mxs st)). 0 < m \<longrightarrow> m \<le> Arho * vbar st"
    and srt: "sorted (filter (\<lambda>m. m > 0) (take n (Mxs st)))"
    and neg: "Arho * c < 0 \<longrightarrow> Arho * vbar st \<le> 0"
    and zero: "\<forall>j. n \<le> j \<and> j < length (Mxs st) \<longrightarrow> Mxs st ! j = 0"
    using inv by (simp_all add: Mx_inv_def)
  show ?thesis
  proof (cases "Arho * c < 0")
    case True
    then have "Arho * c * w \<le> 0" using w mult_nonpos_nonneg [of "Arho * c" w] by simp
    with True neg have le: "?mx \<le> 0" unfolding mx by linarith
    have nopos: "\<forall>m \<in> set (take n (Mxs st)). \<not> 0 < m"
      using old neg True by fastforce
    have "filter (\<lambda>m. m > 0) (take n (Mxs st)) = []"
      using nopos by (simp add: filter_empty_conv)
    then have "sorted (filter (\<lambda>m. m > 0) (take n (Mxs st) @ [?mx]))"
      using le by simp
    moreover have "\<forall>m \<in> set (take n (Mxs st) @ [?mx]). 0 < m \<longrightarrow> m \<le> ?mx"
      using nopos by auto
    moreover have "\<forall>j. Suc n \<le> j \<and> j < length (Mxs st) \<longrightarrow> (Mxs st)[n := ?mx] ! j = 0"
      using zero by simp
    ultimately show ?thesis
      unfolding Mx_inv_def using le True by (simp add: t)
  next
    case False
    then have "0 \<le> Arho * c * w" using w by simp
    then have ge: "Arho * vbar st \<le> ?mx" unfolding mx by linarith
    have bound: "\<forall>m \<in> set (take n (Mxs st)). 0 < m \<longrightarrow> m \<le> ?mx"
      using old ge by fastforce
    have "sorted (filter (\<lambda>m. m > 0) (take n (Mxs st)) @ [?mx])"
      using srt bound by (auto simp: sorted_append)
    then have "sorted (filter (\<lambda>m. m > 0) (take n (Mxs st) @ [?mx]))"
      using srt by simp
    moreover have "\<forall>m \<in> set (take n (Mxs st) @ [?mx]). 0 < m \<longrightarrow> m \<le> ?mx"
      using bound by auto
    moreover have "\<forall>j. Suc n \<le> j \<and> j < length (Mxs st) \<longrightarrow> (Mxs st)[n := ?mx] ! j = 0"
      using zero by simp
    ultimately show ?thesis
      unfolding Mx_inv_def using False by (simp add: t)
  qed
qed

lemma Mx_inv_body:
  assumes "Mx_inv Arho ((vstep / vvir) ^ 3 / (pi powr (3 / 2))) st n" and "n < length (Mxs st)"
  shows "Mx_inv Arho ((vstep / vvir) ^ 3 / (pi powr (3 / 2)))
           (Mx_body vstep vvir vesc vcirc vmin Arho st (n, t)) (Suc n)"
proof (cases "qualifies vesc t")
  case True
  obtain w where w: "0 \<le> w"
    "vrel_of vmin vcirc t * f_BM_bin (qnorm [fst t, fst (snd t), snd (snd t)]) vstep vvir
     = (vstep / vvir) ^ 3 / (pi powr (3 / 2)) * w"
    using flux_increment by blast
  show ?thesis
    using Mx_inv_hit [OF assms w(1)] by (simp only: Mx_body_hit [OF True] w(2))
next
  case False
  then show ?thesis
    using Mx_inv_skip [OF assms] by (simp add: Mx_body_skip)
qed

lemma Mx_body_length:
  "length (Mxs (Mx_body vstep vvir vesc vcirc vmin Arho st (i, t))) = length (Mxs st)"
  by (cases "qualifies vesc t") (simp_all add: Mx_body_hit Mx_body_skip)

lemma Mx_inv_loop:
  assumes "Mx_inv Arho ((vstep / vvir) ^ 3 / (pi powr (3 / 2))) st n"
    and "n + length ts \<le> length (Mxs st)"
  shows "Mx_inv Arho ((vstep / vvir) ^ 3 / (pi powr (3 / 2)))
           (foldl (Mx_body vstep vvir vesc vcirc vmin Arho) st (List.enumerate n ts))
           (n + length ts)"
  using assms
proof (induction ts arbitrary: st n)
  case Nil
  then show ?case by simp
next
  case (Cons t ts)
  have "Mx_inv Arho ((vstep / vvir) ^ 3 / (pi powr (3 / 2)))
          (Mx_body vstep vvir vesc vcirc vmin Arho st (n, t)) (Suc n)"
    using Cons.prems by (intro Mx_inv_body) simp_all
  moreover have "Suc n + length ts
      \<le> length (Mxs (Mx_body vstep vvir vesc vcirc vmin Arho st (n, t)))"
    using Cons.prems by (simp add: Mx_body_length)
  ultimately show ?case
    using Cons.IH [of "Mx_body vstep vvir vesc vcirc vmin Arho st (n, t)" "Suc n"] by simp
qed

lemma Mx_inv_init: "Mx_inv Arho c \<lparr>vbar = 0, Mxs = replicate k 0, vrel = None\<rparr> 0"
  by (simp add: Mx_inv_def)

lemma length_product3: "length (product3 vels) = length vels ^ 3"
  by (simp add: product3_def power3_eq_cube)

lemma Mx_loop_sorted:
  "sorted (filter (\<lambda>m. m > 0)
     (Mxs (foldl (Mx_body vstep vvir vesc vcirc vmin Arho)
        \<lparr>vbar = 0, Mxs = replicate (length vels ^ 3) 0, vrel = None\<rparr> (enumerate_product vels))))"
proof -
  let ?st0 = "\<lparr>vbar = 0, Mxs = replicate (length vels ^ 3) 0, vrel = None\<rparr>"
  let ?st = "foldl (Mx_body vstep vvir vesc vcirc vmin Arho) ?st0 (List.enumerate 0 (product3 vels))"
  have "Mx_inv Arho ((vstep / vvir) ^ 3 / (pi powr (3 / 2))) ?st (0 + length (product3 vels))"
    by (rule Mx_inv_loop [OF Mx_inv_init]) (simp add: length_product3)
  moreover have "length (Mxs ?st) = length vels ^ 3"
    by (simp add: Mx_loop_length)
  ultimately show ?thesis
    by (simp add: Mx_inv_def length_product3 enumerate_product_def)
qed

text \<open>
  Claim C10. The compacted mass array that \<^verbatim>\<open>calculate_Mx\<close> returns is in non-decreasing
  order. Every entry is \<open>Arho\<close> times the cumulative flux at the moment it was written, and
  all flux increments have the sign of the constant factor of the weight (they are
  non-negative for a positive virial velocity, \<open>flux_increment_nonneg\<close>); when that makes
  the entries decrease, none of them is positive and the compacted array is empty.
\<close>

theorem calculate_Mx_sorted:
  assumes "calculate_Mx vels vvir vesc vcirc vmin Arho = Inr (Ms, vb, Vh)"
  shows "sorted Ms"
  using assms Mx_loop_sorted [of _ vvir vesc vcirc vmin Arho vels]
  by (auto simp: calculate_Mx_def Let_def split: sum.splits option.splits)

subsection \<open>The running cap of the cross-section integrator\<close>

lemma Sx_body_skip:
  "\<not> qualifies vesc t \<Longrightarrow> Sx_body vesc vcirc vmin minsigma sf st (i, t) = Inr st"
  by (cases t) (simp add: Sx_body_def qualifies_def)

lemma Sx_body_hit:
  assumes "qualifies vesc t" and "Sx_body vesc vcirc vmin minsigma sf st (i, t) = Inr st'"
  shows "vhold st' = min (vrel_of vmin vcirc t) (vhold st)"
    and "length (Sxs st') = length (Sxs st)"
  using assms
  by (cases t; cases sf; auto simp: Sx_body_def qualifies_def vrel_of_def Let_def min_def)+

lemma Sx_body_length:
  assumes "Sx_body vesc vcirc vmin minsigma sf st (i, t) = Inr st'"
  shows "length (Sxs st') = length (Sxs st)"
proof (cases "qualifies vesc t")
  case True
  then show ?thesis using assms by (rule Sx_body_hit(2))
next
  case False
  then show ?thesis using assms by (simp add: Sx_body_skip)
qed

lemma Sx_body_vhold_le:
  assumes "Sx_body vesc vcirc vmin minsigma sf st (i, t) = Inr st'"
  shows "vhold st' \<le> vhold st"
proof (cases "qualifies vesc t")
  case True
  then show ?thesis using Sx_body_hit(1) [OF True assms] by simp
next
  case False
  then show ?thesis using assms by (simp add: Sx_body_skip)
qed

lemma Sx_body_total:
  "\<exists>st'. Sx_body vesc vcirc vmin minsigma (Some sf) st it = Inr st'"
  by (cases it) (auto simp: Sx_body_def Let_def)

lemma Sx_loop_total:
  "\<exists>st'. Sx_loop vesc vcirc vmin minsigma (Some sf) st its = Inr st'"
proof (induction its arbitrary: st)
  case Nil
  then show ?case by simp
next
  case (Cons it its)
  obtain st1 where "Sx_body vesc vcirc vmin minsigma (Some sf) st it = Inr st1"
    using Sx_body_total by blast
  then show ?case using Cons.IH [of st1] by simp
qed

lemma Sx_loop_length:
  "Sx_loop vesc vcirc vmin minsigma sf st its = Inr st' \<Longrightarrow> length (Sxs st') = length (Sxs st)"
proof (induction its arbitrary: st)
  case Nil
  then show ?case by simp
next
  case (Cons it its)
  obtain i t where it: "it = (i, t)" by (cases it)
  from Cons.prems obtain st1 where
    b: "Sx_body vesc vcirc vmin minsigma sf st it = Inr st1"
    and l: "Sx_loop vesc vcirc vmin minsigma sf st1 its = Inr st'"
    by (auto split: sum.splits)
  show ?case
    using Cons.IH [OF l] Sx_body_length [OF b [unfolded it]] by simp
qed

lemma vhold_trace_bounded:
  "v \<in> set (vhold_trace vesc vcirc vmin minsigma sf st its) \<Longrightarrow> v \<le> vhold st"
proof (induction its arbitrary: st)
  case Nil
  then show ?case by simp
next
  case (Cons it its)
  obtain i t where it: "it = (i, t)" by (cases it)
  show ?case
  proof (cases "Sx_body vesc vcirc vmin minsigma sf st it")
    case (Inl e)
    then show ?thesis using Cons.prems by simp
  next
    case (Inr st1)
    have le: "vhold st1 \<le> vhold st"
      using Inr Sx_body_vhold_le unfolding it by blast
    from Cons.prems Inr
    have "v = vhold st1 \<or> v \<in> set (vhold_trace vesc vcirc vmin minsigma sf st1 its)"
      by (auto split: if_splits)
    then show ?thesis
      using le Cons.IH [of st1] by auto
  qed
qed

lemma vhold_trace_sorted:
  "sorted_wrt (\<lambda>a b. b \<le> a) (vhold_trace vesc vcirc vmin minsigma sf st its)"
proof (induction its arbitrary: st)
  case Nil
  then show ?case by simp
next
  case (Cons it its)
  show ?case
  proof (cases "Sx_body vesc vcirc vmin minsigma sf st it")
    case (Inl e)
    then show ?thesis by simp
  next
    case (Inr st1)
    then show ?thesis
      using Cons.IH [of st1] vhold_trace_bounded [of _ vesc vcirc vmin minsigma sf st1 its]
      by auto
  qed
qed

lemma Sx_loop_vhold:
  "Sx_loop vesc vcirc vmin minsigma sf st its = Inr st'
   \<Longrightarrow> vhold st' = last (vhold st # vhold_trace vesc vcirc vmin minsigma sf st its)"
proof (induction its arbitrary: st)
  case Nil
  then show ?case by simp
next
  case (Cons it its)
  obtain i t where it: "it = (i, t)" by (cases it)
  from Cons.prems obtain st1 where
    b: "Sx_body vesc vcirc vmin minsigma sf st it = Inr st1"
    and l: "Sx_loop vesc vcirc vmin minsigma sf st1 its = Inr st'"
    by (auto split: sum.splits)
  have ih: "vhold st' = last (vhold st1 # vhold_trace vesc vcirc vmin minsigma sf st1 its)"
    by (rule Cons.IH [OF l])
  show ?case
  proof (cases "qualifies vesc t")
    case True
    then show ?thesis using b ih it by simp
  next
    case False
    then have "st1 = st" using b it by (simp add: Sx_body_skip)
    then show ?thesis using b ih it False by simp
  qed
qed

text \<open>
  Claim C3. Within one run of \<^verbatim>\<open>calculate_Sx\<close>, the carried velocity sampled once per
  qualifying triple, preceded by the value handed in, is a non-increasing sequence; at
  each qualifying triple the carried velocity becomes \<open>min vrel vhold\<close>; and the carried
  velocity that a run returns is the last value of that sequence.
\<close>

theorem calculate_Sx_vhold_nonincreasing:
  "sorted_wrt (\<lambda>a b. b \<le> a)
     (vhold0 # vhold_trace vesc vcirc vmin minsigma sf
                 \<lparr>vhold = vhold0, Sxs = replicate (length vels ^ 3) 0\<rparr> (enumerate_product vels))
   \<and> (qualifies vesc t \<longrightarrow> Sx_body vesc vcirc vmin minsigma sf st (i, t) = Inr st'
        \<longrightarrow> vhold st' = min (vrel_of vmin vcirc t) (vhold st))
   \<and> (calculate_Sx vels vesc vhold0 vcirc vmin minsigma sf = Inr (Ss, vh)
        \<longrightarrow> vh = last (vhold0 # vhold_trace vesc vcirc vmin minsigma sf
                 \<lparr>vhold = vhold0, Sxs = replicate (length vels ^ 3) 0\<rparr> (enumerate_product vels)))"
proof -
  let ?st0 = "\<lparr>vhold = vhold0, Sxs = replicate (length vels ^ 3) 0\<rparr>"
  have "sorted_wrt (\<lambda>a b. b \<le> a)
          (vhold0 # vhold_trace vesc vcirc vmin minsigma sf ?st0 (enumerate_product vels))"
    using vhold_trace_sorted [of vesc vcirc vmin minsigma sf ?st0 "enumerate_product vels"]
      vhold_trace_bounded [of _ vesc vcirc vmin minsigma sf ?st0 "enumerate_product vels"]
    by auto
  moreover have "vh = last (vhold0 # vhold_trace vesc vcirc vmin minsigma sf ?st0
                   (enumerate_product vels))"
    if "calculate_Sx vels vesc vhold0 vcirc vmin minsigma sf = Inr (Ss, vh)"
  proof -
    from that obtain st1 where
      l: "Sx_loop vesc vcirc vmin minsigma sf ?st0 (enumerate_product vels) = Inr st1"
      and v: "vh = vhold st1"
      by (auto simp: calculate_Sx_def Let_def split: sum.splits)
    show ?thesis using Sx_loop_vhold [OF l] v by simp
  qed
  ultimately show ?thesis
    using Sx_body_hit(1) [of vesc t vcirc vmin minsigma sf st i st'] by blast
qed

lemma calculate_Sx_total:
  "\<exists>Ss vh. calculate_Sx vels vesc vhold0 vcirc vmin minsigma (Some sf) = Inr (Ss, vh)"
proof -
  obtain st1 where "Sx_loop vesc vcirc vmin minsigma (Some sf)
      \<lparr>vhold = vhold0, Sxs = replicate (length vels ^ 3) 0\<rparr> (enumerate_product vels) = Inr st1"
    using Sx_loop_total by blast
  then show ?thesis by (simp add: calculate_Sx_def)
qed

theorem calculate_Sx_vhold_nonincreasing_witness:
  "sorted_wrt (\<lambda>a b. b \<le> a)
     (800 # vhold_trace 2 0 0 1 (Some 1) \<lparr>vhold = 800, Sxs = replicate (length [0, 1::real] ^ 3) 0\<rparr>
               (enumerate_product [0, 1]))
   \<and> qualifies 2 (0, 0, 1)
   \<and> Sx_body 2 0 0 1 (Some 1) \<lparr>vhold = 800, Sxs = replicate 8 0\<rparr> (1, (0, 0, 1))
       = Inr \<lparr>vhold = 1, Sxs = (replicate 8 0)[1 := 1]\<rparr>
   \<and> vhold \<lparr>vhold = 1, Sxs = (replicate 8 0)[1 := 1]\<rparr> = min (vrel_of 0 0 (0, 0, 1)) 800
   \<and> (\<exists>Ss vh. calculate_Sx [0, 1] 2 800 0 0 1 (Some 1) = Inr (Ss, vh)
        \<and> vh = last (800 # vhold_trace 2 0 0 1 (Some 1)
                 \<lparr>vhold = 800, Sxs = replicate (length [0, 1::real] ^ 3) 0\<rparr> (enumerate_product [0, 1])))"
proof -
  have q: "qualifies 2 (0, 0, 1)" by (simp add: qualifies_iff)
  have b: "Sx_body 2 0 0 1 (Some 1) \<lparr>vhold = 800, Sxs = replicate 8 0\<rparr> (1, (0, 0, 1))
       = Inr \<lparr>vhold = 1, Sxs = (replicate 8 0)[1 := 1]\<rparr>"
    by (simp add: Sx_body_def qnorm_def)
  obtain Ss vh where c: "calculate_Sx [0, 1] 2 800 0 0 1 (Some 1) = Inr (Ss, vh)"
    using calculate_Sx_total by blast
  show ?thesis
    using calculate_Sx_vhold_nonincreasing [of 800 2 0 0 1 "Some 1" "[0, 1]" "(0, 0, 1)"
        "\<lparr>vhold = 800, Sxs = replicate 8 0\<rparr>" 1 "\<lparr>vhold = 1, Sxs = (replicate 8 0)[1 := 1]\<rparr>" Ss vh]
      q b c by simp
qed

subsection \<open>Validation, positivity and length of the outputs\<close>

lemma allclose_adjacent:
  "allclose (butlast xs) (tl xs) \<longleftrightarrow> (\<forall>i. Suc i < length xs \<longrightarrow> isclose (xs ! i) (xs ! Suc i))"
proof -
  have "allclose (butlast xs) (tl xs)
        \<longleftrightarrow> (\<forall>i < length xs - 1. isclose (butlast xs ! i) (tl xs ! i))"
    by (simp add: allclose_def list_all_length)
  also have "\<dots> \<longleftrightarrow> (\<forall>i. Suc i < length xs \<longrightarrow> isclose (xs ! i) (xs ! Suc i))"
    by (auto simp: nth_butlast nth_tl less_diff_conv)
  finally show ?thesis .
qed

text \<open>
  Claim C4, as amended. The validation in \<^verbatim>\<open>calculate_Mx\<close> raises \<^verbatim>\<open>ValueError\<close> (the
  condition \<^verbatim>\<open>InvalidGridSpacing\<close>) exactly when some successive difference is not
  approximately equal to the next one, \<open>|d\<^sub>i - d\<^sub>i\<^sub>+\<^sub>1| \<le> 1e-8 + 1e-5 * |d\<^sub>i\<^sub>+\<^sub>1|\<close>; the
  perturbed axis \<open>[0, 1, 2, 4]\<close> is rejected; and every exactly evenly spaced axis of at
  least two samples passes, with the absolute step as bin width.
\<close>

theorem calculate_Mx_validation:
  "(calculate_Mx vels vvir vesc vcirc vmin Arho = Inl ValueError
      \<longleftrightarrow> (\<exists>i. Suc i < length (diff vels) \<and> \<not> isclose (diff vels ! i) (diff vels ! Suc i)))
   \<and> calculate_Mx [0, 1, 2, 4] vvir vesc vcirc vmin Arho = Inl ValueError
   \<and> (2 \<le> n \<longrightarrow> check_steps (map (\<lambda>i. a + real i * d) [0..<n]) = Inr \<bar>d\<bar>
        \<and> calculate_Mx (map (\<lambda>i. a + real i * d) [0..<n]) vvir vesc vcirc vmin Arho
            \<noteq> Inl ValueError)"
proof -
  have 1: "calculate_Mx vels vvir vesc vcirc vmin Arho = Inl ValueError
      \<longleftrightarrow> (\<exists>i. Suc i < length (diff vels) \<and> \<not> isclose (diff vels ! i) (diff vels ! Suc i))"
    by (simp add: calculate_Mx_ValueError check_steps_ValueError allclose_adjacent)
  have 2: "calculate_Mx [0, 1, 2, 4] vvir vesc vcirc vmin Arho = Inl ValueError"
    by (simp only: calculate_Mx_ValueError check_steps_perturbed)
  have 3: "check_steps (map (\<lambda>i. a + real i * d) [0..<n]) = Inr \<bar>d\<bar>
        \<and> calculate_Mx (map (\<lambda>i. a + real i * d) [0..<n]) vvir vesc vcirc vmin Arho
            \<noteq> Inl ValueError" if "2 \<le> n"
    using check_steps_evenly_spaced [OF that, of a d] by (simp add: calculate_Mx_ValueError)
  from 1 2 3 show ?thesis by blast
qed

theorem calculate_Mx_validation_witness:
  "calculate_Mx [0, 1, 3] 250 550 220 42.1 3 = Inl ValueError
   \<and> Suc 0 < length (diff [0, 1, 3]) \<and> \<not> isclose (diff [0, 1, 3] ! 0) (diff [0, 1, 3] ! Suc 0)
   \<and> (2::nat) \<le> 3
   \<and> check_steps (map (\<lambda>i. 10 + real i * 5) [0..<3]) = Inr \<bar>5\<bar>
   \<and> calculate_Mx (map (\<lambda>i. 10 + real i * 5) [0..<3]) 250 550 220 42.1 3 \<noteq> Inl ValueError"
proof -
  have i: "Suc 0 < length (diff [0, 1, 3]) \<and> \<not> isclose (diff [0, 1, 3] ! 0) (diff [0, 1, 3] ! Suc 0)"
    by (simp add: isclose_def)
  have n: "(2::nat) \<le> 3" by simp
  from i have "\<exists>i. Suc i < length (diff [0, 1, 3]) \<and> \<not> isclose (diff [0, 1, 3] ! i) (diff [0, 1, 3] ! Suc i)"
    by blast
  with calculate_Mx_validation [of "[0, 1, 3]" 250 550 220 "42.1" 3 3 10 5] i n
  show ?thesis by blast
qed

text \<open>
  Claim C4, as stated, fails. On the axis \<open>[0, 1, 2.000009, 3.000027]\<close> the differences
  drift: each is close to the next, so the code accepts the axis, but the smallest and
  the largest differ by more than the tolerance, in either order of comparison. And the
  single-sample axis \<open>[5]\<close>, which has no two differences to tell apart, is not accepted:
  \<^verbatim>\<open>steps[0]\<close> raises \<^verbatim>\<open>IndexError\<close>.
\<close>

theorem validation_not_min_max:
  "calculate_Mx [0, 1, 2.000009, 3.000027] 250 550 220 42.1 3 \<noteq> Inl ValueError
   \<and> \<not> spec_check_steps [0, 1, 2.000009, 3.000027]
   \<and> \<not> isclose (Max (set (diff [0, 1, 2.000009, 3.000027])))
               (Min (set (diff [0, 1, 2.000009, 3.000027])))
   \<and> spec_check_steps [5]
   \<and> calculate_Mx [5] 250 550 220 42.1 3 = Inl IndexError"
proof -
  have "check_steps [0, 1, 2.000009, 3.000027] \<noteq> Inl ValueError"
    using check_steps_drift by simp
  then have "calculate_Mx [0, 1, 2.000009, 3.000027] 250 550 220 42.1 3 \<noteq> Inl ValueError"
    by (simp only: calculate_Mx_ValueError not_False_eq_True)
  moreover have "\<not> isclose (Max (set (diff [0, 1, 2.000009, 3.000027])))
               (Min (set (diff [0, 1, 2.000009, 3.000027])))"
    by (simp add: isclose_def)
  moreover have "spec_check_steps [5]"
    by (simp add: spec_check_steps_def)
  moreover have "calculate_Mx [5] 250 550 220 42.1 3 = Inl IndexError"
    by (simp add: calculate_Mx_def check_steps_def)
  ultimately show ?thesis using spec_drift by blast
qed

lemma calculate_Mx_positive:
  assumes "calculate_Mx vels vvir vesc vcirc vmin Arho = Inr (Ms, vb, Vh)"
  shows "(\<forall>m \<in> set Ms. 0 < m) \<and> length Ms \<le> length vels ^ 3"
proof -
  from assms obtain vstep where
    Ms: "Ms = filter (\<lambda>m. m > 0) (Mxs (foldl (Mx_body vstep vvir vesc vcirc vmin Arho)
              \<lparr>vbar = 0, Mxs = replicate (length vels ^ 3) 0, vrel = None\<rparr>
              (List.enumerate 0 (product3 vels))))"
    by (auto simp: calculate_Mx_def enumerate_product_def Let_def split: sum.splits option.splits)
  have "length Ms \<le> length (Mxs (foldl (Mx_body vstep vvir vesc vcirc vmin Arho)
              \<lparr>vbar = 0, Mxs = replicate (length vels ^ 3) 0, vrel = None\<rparr>
              (List.enumerate 0 (product3 vels))))"
    unfolding Ms by (rule length_filter_le)
  then have "length Ms \<le> length vels ^ 3"
    by (simp add: Mx_loop_length)
  moreover have "\<forall>m \<in> set Ms. 0 < m" unfolding Ms by simp
  ultimately show ?thesis by blast
qed

lemma calculate_Sx_positive:
  assumes "calculate_Sx vels vesc vhold0 vcirc vmin minsigma sf = Inr (Ss, vh)"
  shows "(\<forall>s \<in> set Ss. 0 < s) \<and> length Ss \<le> length vels ^ 3"
proof -
  from assms obtain st1 where
    l: "Sx_loop vesc vcirc vmin minsigma sf
          \<lparr>vhold = vhold0, Sxs = replicate (length vels ^ 3) 0\<rparr> (enumerate_product vels) = Inr st1"
    and Ss: "Ss = filter (\<lambda>s. s > 0) (Sxs st1)"
    by (auto simp: calculate_Sx_def Let_def split: sum.splits)
  have "length (Sxs st1) = length vels ^ 3"
    using Sx_loop_length [OF l] by simp
  moreover have "length Ss \<le> length (Sxs st1)"
    unfolding Ss by (rule length_filter_le)
  moreover have "\<forall>s \<in> set Ss. 0 < s" unfolding Ss by simp
  ultimately show ?thesis by simp
qed

text \<open>
  Claim C7. For an axis of \<open>N\<close> samples, the mass array that \<^verbatim>\<open>calculate_Mx\<close> returns and
  the cross-section array that \<^verbatim>\<open>calculate_Sx\<close> returns hold strictly positive values
  only, and each has at most \<open>N\<^sup>3\<close> entries.
\<close>

theorem outputs_positive_bounded:
  "(calculate_Mx vels vvir vesc vcirc vmin Arho = Inr (Ms, vb, Vh)
      \<longrightarrow> (\<forall>m \<in> set Ms. 0 < m) \<and> length Ms \<le> length vels ^ 3)
   \<and> (calculate_Sx vels vesc vhold0 vcirc vmin minsigma sf = Inr (Ss, vh)
      \<longrightarrow> (\<forall>s \<in> set Ss. 0 < s) \<and> length Ss \<le> length vels ^ 3)"
  using calculate_Mx_positive calculate_Sx_positive by blast

theorem outputs_positive_bounded_witness:
  "\<exists>Ms vb Vh Ss vh.
     calculate_Mx [0, 1] 250 2 0 0 3 = Inr (Ms, vb, Vh)
     \<and> (\<forall>m \<in> set Ms. 0 < m) \<and> length Ms \<le> length [0, 1::real] ^ 3
     \<and> calculate_Sx [0, 1] 2 800 0 0 1 (Some 1) = Inr (Ss, vh)
     \<and> (\<forall>s \<in> set Ss. 0 < s) \<and> length Ss \<le> length [0, 1::real] ^ 3"
proof -
  have c: "check_steps [0, 1] = Inr \<bar>1 - 0\<bar>" by (rule check_steps_two)
  have q: "filter (qualifies 2) (product3 [0, 1]) \<noteq> []"
    unfolding all_triples_example by (simp add: product3_two)
  obtain Ms vb Vh where m: "calculate_Mx [0, 1] 250 2 0 0 3 = Inr (Ms, vb, Vh)"
    using calculate_Mx_Vhold [OF c q, of 250 0 0 3] by blast
  obtain Ss vh where s: "calculate_Sx [0, 1] 2 800 0 0 1 (Some 1) = Inr (Ss, vh)"
    using calculate_Sx_total by blast
  show ?thesis
    using outputs_positive_bounded [of "[0, 1]" 250 2 0 0 3 Ms vb Vh 800 1 "Some 1" Ss vh] m s
    by blast
qed

theorem calculate_Mx_sorted_witness:
  "\<exists>Ms vb Vh. calculate_Mx [0, 1] 250 2 0 0 3 = Inr (Ms, vb, Vh) \<and> sorted Ms"
proof -
  have c: "check_steps [0, 1] = Inr \<bar>1 - 0\<bar>" by (rule check_steps_two)
  have q: "filter (qualifies 2) (product3 [0, 1]) \<noteq> []"
    unfolding all_triples_example by (simp add: product3_two)
  obtain Ms vb Vh where m: "calculate_Mx [0, 1] 250 2 0 0 3 = Inr (Ms, vb, Vh)"
    using calculate_Mx_Vhold [OF c q, of 250 0 0 3] by blast
  show ?thesis using calculate_Mx_sorted [OF m] m by blast
qed

subsection \<open>The store model refines the functional model\<close>

lemma set_array_simps [simp]:
  "arrays (set_array p xs s) = (arrays s)(p \<mapsto> xs)"
  "next_addr (set_array p xs s) = next_addr s"
  "array_at (set_array p xs s) p = xs"
  "set_array p xs (set_array p ys s) = set_array p xs s"
  by (simp_all add: set_array_def array_at_def)

lemma set_array_same: "arrays s p = Some xs \<Longrightarrow> set_array p xs s = s"
  by (simp add: set_array_def map_upd_triv)

lemma array_at_Some: "arrays s p = Some xs \<Longrightarrow> array_at s p = xs"
  by (simp add: array_at_def)

lemma frame_refl: "frame s s"
  by (simp add: frame_def)

lemma frame_trans: "frame s s1 \<Longrightarrow> frame s1 s2 \<Longrightarrow> frame s s2"
  by (auto simp: frame_def)

lemma frame_set_array: "next_addr s \<le> p \<Longrightarrow> frame s (set_array p xs s)"
  by (simp add: frame_def)

lemma frame_array_at: "frame s s' \<Longrightarrow> b < next_addr s \<Longrightarrow> array_at s' b = array_at s b"
  by (simp add: frame_def array_at_def)

lemma new_array_props:
  assumes "new_array xs s = (p, s1)"
  shows "p = next_addr s" and "next_addr s1 = Suc (next_addr s)" and "arrays s1 p = Some xs"
    and "frame s s1" and "s1 = (set_array (next_addr s) xs s)\<lparr>next_addr := Suc (next_addr s)\<rparr>"
  using assms by (auto simp: new_array_def frame_def set_array_def)

lemma Mx_state_eta: "\<lparr>vbar = vbar st, Mxs = Mxs st, vrel = vrel st\<rparr> = (st::Mx_state)"
  by simp

lemma Mx_loop_st:
  assumes "arrays s p = Some xs"
  shows "foldl (Mx_body_st vstep vvir vesc vcirc vmin Arho p) (s, vb, vr) its
         = (let st = foldl (Mx_body vstep vvir vesc vcirc vmin Arho)
                       \<lparr>vbar = vb, Mxs = xs, vrel = vr\<rparr> its
            in (set_array p (Mxs st) s, vbar st, vrel st))"
  using assms
proof (induction its arbitrary: s vb vr xs)
  case Nil
  then show ?case by (simp add: set_array_same)
next
  case (Cons it its)
  let ?st1 = "Mx_body vstep vvir vesc vcirc vmin Arho \<lparr>vbar = vb, Mxs = xs, vrel = vr\<rparr> it"
  have step: "Mx_body_st vstep vvir vesc vcirc vmin Arho p (s, vb, vr) it
              = (set_array p (Mxs ?st1) s, vbar ?st1, vrel ?st1)"
    using Cons.prems by (simp add: Mx_body_st_def array_at_Some Let_def)
  have "arrays (set_array p (Mxs ?st1) s) p = Some (Mxs ?st1)" by simp
  from Cons.IH [OF this, of "vbar ?st1" "vrel ?st1"] step
  show ?case unfolding Mx_state_eta by (simp add: Let_def)
qed

lemma Sx_loop_st_sim:
  assumes "arrays s p = Some xs"
  shows "\<exists>ys. snd (Sx_loop_st vesc vcirc vmin minsigma sf p s vh its) = set_array p ys s
          \<and> (case Sx_loop vesc vcirc vmin minsigma sf \<lparr>vhold = vh, Sxs = xs\<rparr> its of
                Inl e \<Rightarrow> fst (Sx_loop_st vesc vcirc vmin minsigma sf p s vh its) = Inl e
              | Inr st \<Rightarrow> fst (Sx_loop_st vesc vcirc vmin minsigma sf p s vh its) = Inr (vhold st)
                          \<and> ys = Sxs st)"
  using assms
proof (induction its arbitrary: s vh xs)
  case Nil
  then show ?case by (auto simp: set_array_same)
next
  case (Cons it its)
  show ?case
  proof (cases "Sx_body vesc vcirc vmin minsigma sf \<lparr>vhold = vh, Sxs = xs\<rparr> it")
    case (Inl e)
    then show ?thesis
      using array_at_Some [OF Cons.prems] set_array_same [OF Cons.prems, symmetric]
      by (intro exI [of _ xs]) simp
  next
    case (Inr st1)
    have a: "arrays (set_array p (Sxs st1) s) p = Some (Sxs st1)" by simp
    from Cons.IH [OF a, of "vhold st1"] obtain ys where
      ys: "snd (Sx_loop_st vesc vcirc vmin minsigma sf p (set_array p (Sxs st1) s) (vhold st1) its)
             = set_array p ys (set_array p (Sxs st1) s)"
      "(case Sx_loop vesc vcirc vmin minsigma sf \<lparr>vhold = vhold st1, Sxs = Sxs st1\<rparr> its of
          Inl e \<Rightarrow> fst (Sx_loop_st vesc vcirc vmin minsigma sf p (set_array p (Sxs st1) s) (vhold st1) its) = Inl e
        | Inr st \<Rightarrow> fst (Sx_loop_st vesc vcirc vmin minsigma sf p (set_array p (Sxs st1) s) (vhold st1) its) = Inr (vhold st)
                    \<and> ys = Sxs st)"
      by blast
    have st1: "\<lparr>vhold = vhold st1, Sxs = Sxs st1\<rparr> = st1" by simp
    have ax: "array_at s p = xs" using Cons.prems by (rule array_at_Some)
    have unf: "Sx_loop_st vesc vcirc vmin minsigma sf p s vh (it # its)
        = Sx_loop_st vesc vcirc vmin minsigma sf p (set_array p (Sxs st1) s) (vhold st1) its"
      by (simp add: ax Inr)
    have unf': "Sx_loop vesc vcirc vmin minsigma sf \<lparr>vhold = vh, Sxs = xs\<rparr> (it # its)
        = Sx_loop vesc vcirc vmin minsigma sf st1 its"
      by (simp add: Inr)
    show ?thesis
      using ys unfolding st1 unf unf'
      by (intro exI [of _ ys]) simp
  qed
qed

lemma calculate_Mx_st_refines:
  assumes a: "arrays s a = Some vels"
    and run: "calculate_Mx_st a vvir vesc vcirc vmin Arho s = (r, s')"
  shows "frame s s' \<and>
         (case r of
            Inl e \<Rightarrow> calculate_Mx vels vvir vesc vcirc vmin Arho = Inl e
          | Inr (q, vb, Vh) \<Rightarrow> q < next_addr s'
              \<and> calculate_Mx vels vvir vesc vcirc vmin Arho = Inr (array_at s' q, vb, Vh))"
proof (cases "check_steps vels")
  case (Inl e)
  then show ?thesis
    using run array_at_Some [OF a]
    by (auto simp: calculate_Mx_st_def calculate_Mx_def frame_refl)
next
  case (Inr vstep)
  let ?zeros = "replicate (length vels ^ 3) (0::real)"
  obtain p s1 where n: "new_array ?zeros s = (p, s1)" by (cases "new_array ?zeros s")
  note n1 = new_array_props [OF n]
  let ?st = "foldl (Mx_body vstep vvir vesc vcirc vmin Arho)
               \<lparr>vbar = 0, Mxs = ?zeros, vrel = None\<rparr> (enumerate_product vels)"
  let ?s2 = "set_array p (Mxs ?st) s1"
  have loop: "foldl (Mx_body_st vstep vvir vesc vcirc vmin Arho p) (s1, 0, None)
                (enumerate_product vels) = (?s2, vbar ?st, vrel ?st)"
    using Mx_loop_st [OF n1(3)] by (simp add: Let_def)
  have f2: "frame s ?s2"
    using n1(1,2,4) by (auto simp: frame_def)
  show ?thesis
  proof (cases "vrel ?st")
    case None
    then have "r = Inl UnboundLocalError" "s' = ?s2"
      using run Inr n loop array_at_Some [OF a] by (simp_all add: calculate_Mx_st_def)
    then show ?thesis
      using f2 None Inr by (simp add: calculate_Mx_def Let_def)
  next
    case (Some Vh)
    let ?out = "filter (\<lambda>m. m > 0) (Mxs ?st)"
    obtain q s3 where m: "new_array ?out ?s2 = (q, s3)" by (cases "new_array ?out ?s2")
    note m1 = new_array_props [OF m]
    have r: "r = Inr (q, vbar ?st, Vh)" "s' = s3"
      using run Inr n loop Some m array_at_Some [OF a] by (simp_all add: calculate_Mx_st_def)
    have "frame s s3" using f2 m1(4) by (rule frame_trans)
    moreover have "q < next_addr s3" using m1(1,2) by simp
    moreover have "array_at s3 q = ?out" using m1(3) by (rule array_at_Some)
    ultimately show ?thesis
      using r Some Inr by (simp add: calculate_Mx_def Let_def)
  qed
qed

lemma calculate_Sx_st_refines:
  assumes a: "arrays s a = Some vels"
    and run: "calculate_Sx_st a vesc vhold0 vcirc vmin minsigma sf s = (r, s')"
  shows "frame s s' \<and>
         (case r of
            Inl e \<Rightarrow> calculate_Sx vels vesc vhold0 vcirc vmin minsigma sf = Inl e
          | Inr (q, vh) \<Rightarrow> q < next_addr s'
              \<and> calculate_Sx vels vesc vhold0 vcirc vmin minsigma sf = Inr (array_at s' q, vh))"
proof -
  let ?zeros = "replicate (length vels ^ 3) (0::real)"
  let ?st0 = "\<lparr>vhold = vhold0, Sxs = ?zeros\<rparr>"
  obtain p s1 where n: "new_array ?zeros s = (p, s1)" by (cases "new_array ?zeros s")
  note n1 = new_array_props [OF n]
  obtain r2 s2 where l: "Sx_loop_st vesc vcirc vmin minsigma sf p s1 vhold0 (enumerate_product vels)
      = (r2, s2)"
    by (cases "Sx_loop_st vesc vcirc vmin minsigma sf p s1 vhold0 (enumerate_product vels)")
  from Sx_loop_st_sim [OF n1(3), of vesc vcirc vmin minsigma sf vhold0 "enumerate_product vels",
      unfolded l fst_conv snd_conv]
  obtain ys where ys: "s2 = set_array p ys s1"
    "(case Sx_loop vesc vcirc vmin minsigma sf ?st0 (enumerate_product vels) of
        Inl e \<Rightarrow> r2 = Inl e
      | Inr st \<Rightarrow> r2 = Inr (vhold st) \<and> ys = Sxs st)"
    by blast
  have f2: "frame s s2"
    using n1(1,2,4) ys(1) by (auto simp: frame_def)
  show ?thesis
  proof (cases "Sx_loop vesc vcirc vmin minsigma sf ?st0 (enumerate_product vels)")
    case (Inl e)
    then have "r2 = Inl e" using ys(2) by simp
    then have "r = Inl e" "s' = s2"
      using run n l array_at_Some [OF a] by (simp_all add: calculate_Sx_st_def)
    then show ?thesis using f2 Inl by (simp add: calculate_Sx_def)
  next
    case (Inr st)
    then have r2: "r2 = Inr (vhold st)" and y: "ys = Sxs st" using ys(2) by simp_all
    let ?out = "filter (\<lambda>x. x > 0) (Sxs st)"
    have at: "array_at s2 p = Sxs st" using ys(1) y by simp
    obtain q s3 where m: "new_array ?out s2 = (q, s3)" by (cases "new_array ?out s2")
    note m1 = new_array_props [OF m]
    have r: "r = Inr (q, vhold st)" "s' = s3"
      using run n l r2 at m array_at_Some [OF a] by (simp_all add: calculate_Sx_st_def)
    have "frame s s3" using f2 m1(4) by (rule frame_trans)
    moreover have "q < next_addr s3" using m1(1,2) by simp
    moreover have "array_at s3 q = ?out" using m1(3) by (rule array_at_Some)
    ultimately show ?thesis
      using r Inr by (simp add: calculate_Sx_def)
  qed
qed

lemma frame_keeps: "frame s s' \<Longrightarrow> a < next_addr s \<Longrightarrow> arrays s a = Some xs \<Longrightarrow> arrays s' a = Some xs"
  by (simp add: frame_def)

lemma calculate_Mx_and_Sx_st_refines:
  assumes a: "arrays s a = Some vels" and lt: "a < next_addr s"
    and run: "calculate_Mx_and_Sx_st a vvir vesc vcirc vmin Arho minsigma sf s = (r, s')"
  shows "frame s s'"
    and "observe s' r = calculate_Mx_and_Sx vels vvir vesc vcirc vmin Arho minsigma sf"
    and "case r of Inl e \<Rightarrow> True | Inr (pM, pS, vb, Vh) \<Rightarrow> pM < next_addr s' \<and> pS < next_addr s'"
proof -
  obtain r1 s1 where m: "calculate_Mx_st a vvir vesc vcirc vmin Arho s = (r1, s1)"
    by (cases "calculate_Mx_st a vvir vesc vcirc vmin Arho s")
  note M = calculate_Mx_st_refines [OF a m]
  have "frame s s' \<and> observe s' r = calculate_Mx_and_Sx vels vvir vesc vcirc vmin Arho minsigma sf
      \<and> (case r of Inl e \<Rightarrow> True | Inr (pM, pS, vb, Vh) \<Rightarrow> pM < next_addr s' \<and> pS < next_addr s')"
  proof (cases r1)
    case (Inl e)
    then show ?thesis
      using M run m by (auto simp: calculate_Mx_and_Sx_st_def calculate_Mx_and_Sx_def observe_def)
  next
    case (Inr t)
    obtain pM vb Vh where t: "t = (pM, vb, Vh)" by (cases t)
    have pM: "pM < next_addr s1"
      and mx: "calculate_Mx vels vvir vesc vcirc vmin Arho = Inr (array_at s1 pM, vb, Vh)"
      and f1: "frame s s1"
      using M Inr t by simp_all
    have a1: "arrays s1 a = Some vels" using f1 lt a by (rule frame_keeps)
    obtain r2 s2 where x: "calculate_Sx_st a vesc Vh vcirc vmin minsigma sf s1 = (r2, s2)"
      by (cases "calculate_Sx_st a vesc Vh vcirc vmin minsigma sf s1")
    note S = calculate_Sx_st_refines [OF a1 x]
    have f2: "frame s1 s2" using S by simp
    have f: "frame s s2" using f1 f2 by (rule frame_trans)
    have keep: "array_at s2 pM = array_at s1 pM" using f2 pM by (rule frame_array_at)
    have pM2: "pM < next_addr s2" using f2 pM by (simp add: frame_def)
    show ?thesis
    proof (cases r2)
      case (Inl e)
      then show ?thesis
        using S run m x \<open>r1 = Inr t\<close> Inl t f mx
        by (auto simp: calculate_Mx_and_Sx_st_def calculate_Mx_and_Sx_def observe_def)
    next
      case (Inr u)
      obtain pS vh where u: "u = (pS, vh)" by (cases u)
      show ?thesis
        using S run m x Inr \<open>r1 = Inr t\<close> t u f mx keep pM2
        by (auto simp: calculate_Mx_and_Sx_st_def calculate_Mx_and_Sx_def observe_def)
    qed
  qed
  then show "frame s s'"
    and "observe s' r = calculate_Mx_and_Sx vels vvir vesc vcirc vmin Arho minsigma sf"
    and "case r of Inl e \<Rightarrow> True | Inr (pM, pS, vb, Vh) \<Rightarrow> pM < next_addr s' \<and> pS < next_addr s'"
    by simp_all
qed

subsection \<open>Two calls in sequence\<close>

lemma observe_frame:
  assumes "frame s1 s2"
    and "case r of Inl e \<Rightarrow> True | Inr (pM, pS, vb, Vh) \<Rightarrow> pM < next_addr s1 \<and> pS < next_addr s1"
  shows "observe s2 r = observe s1 r"
  using assms by (auto simp: observe_def frame_array_at split: sum.splits)

lemma calculate_Mx_and_Sx_store_independent:
  assumes "arrays s a = Some vels" and "a < next_addr s"
    and "arrays t b = Some vels" and "b < next_addr t"
    and "calculate_Mx_and_Sx_st a vvir vesc vcirc vmin Arho minsigma sf s = (r1, s1)"
    and "calculate_Mx_and_Sx_st b vvir vesc vcirc vmin Arho minsigma sf t = (r2, t2)"
  shows "observe t2 r2 = observe s1 r1"
  using calculate_Mx_and_Sx_st_refines(2) [OF assms(1,2,5)]
    calculate_Mx_and_Sx_st_refines(2) [OF assms(3,4,6)] by simp

text \<open>
  Claim C8. Two calls of \<^verbatim>\<open>calculate_Mx_and_Sx\<close> with the same arguments, the second one
  started in the store that the first one left, produce the same outputs (mass array,
  cross-section array, cumulative flux, carried velocity, or the same exception). The
  outputs are those of the functional model, a function of the arguments alone; the
  second call leaves the outputs of the first intact, and neither call changes the
  velocity axis it was given.
\<close>

theorem calculate_Mx_and_Sx_deterministic:
  assumes a: "arrays s a = Some vels" and lt: "a < next_addr s"
    and run1: "calculate_Mx_and_Sx_st a vvir vesc vcirc vmin Arho minsigma sf s = (r1, s1)"
    and run2: "calculate_Mx_and_Sx_st a vvir vesc vcirc vmin Arho minsigma sf s1 = (r2, s2)"
  shows "observe s2 r2 = observe s1 r1
         \<and> observe s1 r1 = calculate_Mx_and_Sx vels vvir vesc vcirc vmin Arho minsigma sf
         \<and> observe s2 r1 = observe s1 r1
         \<and> arrays s1 a = Some vels \<and> arrays s2 a = Some vels"
proof -
  note R1 = calculate_Mx_and_Sx_st_refines [OF a lt run1]
  have a1: "arrays s1 a = Some vels" using R1(1) lt a by (rule frame_keeps)
  have lt1: "a < next_addr s1" using R1(1) lt by (simp add: frame_def)
  note R2 = calculate_Mx_and_Sx_st_refines [OF a1 lt1 run2]
  have a2: "arrays s2 a = Some vels" using R2(1) lt1 a1 by (rule frame_keeps)
  have "observe s2 r1 = observe s1 r1" using R2(1) R1(3) by (rule observe_frame)
  then show ?thesis using R1(2) R2(2) a1 a2 by simp
qed

theorem calculate_Mx_and_Sx_deterministic_witness:
  "\<exists>r1 s1 r2 s2.
     arrays \<lparr>arrays = [0 \<mapsto> [0, 1]], next_addr = 1\<rparr> 0 = Some [0, 1]
     \<and> (0::nat) < next_addr \<lparr>arrays = [0 \<mapsto> [0, 1]], next_addr = 1\<rparr>
     \<and> calculate_Mx_and_Sx_st 0 250 2 0 0 3 1 (Some 1) \<lparr>arrays = [0 \<mapsto> [0, 1]], next_addr = 1\<rparr>
         = (r1, s1)
     \<and> calculate_Mx_and_Sx_st 0 250 2 0 0 3 1 (Some 1) s1 = (r2, s2)
     \<and> observe s2 r2 = observe s1 r1
     \<and> observe s1 r1 = calculate_Mx_and_Sx [0, 1] 250 2 0 0 3 1 (Some 1)
     \<and> observe s2 r1 = observe s1 r1
     \<and> arrays s1 0 = Some [0, 1] \<and> arrays s2 0 = Some [0, 1]"
proof -
  let ?s = "\<lparr>arrays = [0 \<mapsto> [0, 1::real]], next_addr = 1\<rparr>"
  have a: "arrays ?s 0 = Some [0, 1]" by simp
  have lt: "(0::nat) < next_addr ?s" by simp
  obtain r1 s1 where run1: "calculate_Mx_and_Sx_st 0 250 2 0 0 3 1 (Some 1) ?s = (r1, s1)"
    by (cases "calculate_Mx_and_Sx_st 0 250 2 0 0 3 1 (Some 1) ?s")
  obtain r2 s2 where run2: "calculate_Mx_and_Sx_st 0 250 2 0 0 3 1 (Some 1) s1 = (r2, s2)"
    by (cases "calculate_Mx_and_Sx_st 0 250 2 0 0 3 1 (Some 1) s1")
  show ?thesis
    using calculate_Mx_and_Sx_deterministic [OF a lt run1 run2] a lt run1 run2 by blast
qed

end
